theory Spec2Isabelle
  imports Complex_Main
begin

section \<open>Values of type double\<close>

text \<open>
  The source computes in C++ \<^verbatim>\<open>double\<close>. A double is modelled by its value class:
  a finite number, one of the two infinities, or not-a-number. The special values
  propagate as IEEE 754 prescribes, so that a comparison with NaN is false and a
  division by zero yields an infinity or NaN. The conversion of an integer to double
  and the sum of two converted integers are rounded to the nearest double, as the
  source's are. The other finite operations (\<open>dadd\<close>, \<open>dsub\<close>, \<open>dmul\<close>, \<open>ddiv\<close> and the
  functions of \<^verbatim>\<open><cmath>\<close>) are those of the real numbers: there the source's
  result may differ from the model's by the rounding of each operation, and neither
  the overflow of a finite result nor the sign of zero is modelled.
\<close>

datatype dbl = Fin real | PInf | NInf | NaN

fun dneg :: "dbl \<Rightarrow> dbl" where
  "dneg (Fin a) = Fin (- a)"
| "dneg PInf = NInf"
| "dneg NInf = PInf"
| "dneg NaN = NaN"

fun dadd :: "dbl \<Rightarrow> dbl \<Rightarrow> dbl" where
  "dadd (Fin a) (Fin b) = Fin (a + b)"
| "dadd NaN _ = NaN"
| "dadd _ NaN = NaN"
| "dadd PInf NInf = NaN"
| "dadd NInf PInf = NaN"
| "dadd PInf _ = PInf"
| "dadd NInf _ = NInf"
| "dadd _ PInf = PInf"
| "dadd _ NInf = NInf"

definition dsub :: "dbl \<Rightarrow> dbl \<Rightarrow> dbl" where
  "dsub a b = dadd a (dneg b)"

fun dmul :: "dbl \<Rightarrow> dbl \<Rightarrow> dbl" where
  "dmul (Fin a) (Fin b) = Fin (a * b)"
| "dmul NaN _ = NaN"
| "dmul _ NaN = NaN"
| "dmul (Fin a) PInf = (if a = 0 then NaN else if 0 < a then PInf else NInf)"
| "dmul (Fin a) NInf = (if a = 0 then NaN else if 0 < a then NInf else PInf)"
| "dmul PInf (Fin b) = (if b = 0 then NaN else if 0 < b then PInf else NInf)"
| "dmul NInf (Fin b) = (if b = 0 then NaN else if 0 < b then NInf else PInf)"
| "dmul PInf PInf = PInf"
| "dmul PInf NInf = NInf"
| "dmul NInf PInf = NInf"
| "dmul NInf NInf = PInf"

text \<open>Division: a zero divisor is taken as positive zero.\<close>

fun ddiv :: "dbl \<Rightarrow> dbl \<Rightarrow> dbl" where
  "ddiv (Fin a) (Fin b) =
     (if b = 0 then (if a = 0 then NaN else if 0 < a then PInf else NInf)
      else Fin (a / b))"
| "ddiv NaN _ = NaN"
| "ddiv _ NaN = NaN"
| "ddiv (Fin a) PInf = Fin 0"
| "ddiv (Fin a) NInf = Fin 0"
| "ddiv PInf (Fin b) = (if 0 \<le> b then PInf else NInf)"
| "ddiv NInf (Fin b) = (if 0 \<le> b then NInf else PInf)"
| "ddiv PInf PInf = NaN"
| "ddiv PInf NInf = NaN"
| "ddiv NInf PInf = NaN"
| "ddiv NInf NInf = NaN"

text \<open>The comparisons \<^verbatim>\<open>>=\<close> and \<^verbatim>\<open><\<close>; both are false when an operand is NaN.\<close>

fun dge :: "dbl \<Rightarrow> dbl \<Rightarrow> bool" where
  "dge (Fin a) (Fin b) = (b \<le> a)"
| "dge NaN _ = False"
| "dge _ NaN = False"
| "dge PInf _ = True"
| "dge _ NInf = True"
| "dge NInf _ = False"
| "dge _ PInf = False"

fun dlt :: "dbl \<Rightarrow> dbl \<Rightarrow> bool" where
  "dlt (Fin a) (Fin b) = (a < b)"
| "dlt NaN _ = False"
| "dlt _ NaN = False"
| "dlt PInf _ = False"
| "dlt _ NInf = False"
| "dlt NInf _ = True"
| "dlt _ PInf = True"

text \<open>The functions of \<^verbatim>\<open><cmath>\<close> the projections call.\<close>

fun dsqrt :: "dbl \<Rightarrow> dbl" where
  "dsqrt (Fin a) = (if a < 0 then NaN else Fin (sqrt a))"
| "dsqrt PInf = PInf"
| "dsqrt NInf = NaN"
| "dsqrt NaN = NaN"

fun dsin :: "dbl \<Rightarrow> dbl" where
  "dsin (Fin a) = Fin (sin a)"
| "dsin _ = NaN"

fun dcos :: "dbl \<Rightarrow> dbl" where
  "dcos (Fin a) = Fin (cos a)"
| "dcos _ = NaN"

fun dasin :: "dbl \<Rightarrow> dbl" where
  "dasin (Fin a) = (if - 1 \<le> a \<and> a \<le> 1 then Fin (arcsin a) else NaN)"
| "dasin _ = NaN"

fun datan :: "dbl \<Rightarrow> dbl" where
  "datan (Fin a) = Fin (arctan a)"
| "datan PInf = Fin (pi / 2)"
| "datan NInf = Fin (- (pi / 2))"
| "datan NaN = NaN"

fun dsinh :: "dbl \<Rightarrow> dbl" where
  "dsinh (Fin a) = Fin (sinh a)"
| "dsinh PInf = PInf"
| "dsinh NInf = NInf"
| "dsinh NaN = NaN"

text \<open>The macro \<^verbatim>\<open>PI\<close> and the largest finite double, \<^verbatim>\<open>std::numeric_limits<double>::max()\<close>.\<close>

definition PI :: dbl where
  "PI = Fin pi"

definition DBL_MAX :: real where
  "DBL_MAX = (2 - 1 / 2 ^ 52) * 2 ^ 1023"

text \<open>
  The doubles among the integers. Every integer of magnitude at most \<open>2 ^ 53\<close> is a
  double; from there on the doubles are the multiples of a power of two, the spacing,
  which doubles with each further bit of the magnitude. \<open>nearest_double\<close> rounds an
  integer to the nearest of them, a tie to the multiple with the even quotient.
\<close>

function spacing :: "int \<Rightarrow> int" where
  "spacing m = (if m < 2 ^ 53 then 1 else 2 * spacing (m div 2))"
  by pat_completeness auto
termination
  by (relation "measure nat") auto

definition nearest_double :: "int \<Rightarrow> int" where
  "nearest_double n =
     (let u = spacing \<bar>n\<bar>;
          q = n div u;
          r = n mod u
      in if 2 * r < u then q * u
         else if u < 2 * r then (q + 1) * u
         else if even q then q * u
         else (q + 1) * u)"

text \<open>Conversion of an \<^verbatim>\<open>index_t\<close> (or an \<^verbatim>\<open>int\<close>) and of a \<^verbatim>\<open>size_t\<close> to double.\<close>

definition of_index :: "int \<Rightarrow> dbl" where
  "of_index n = Fin (real_of_int (nearest_double n))"

definition of_size :: "nat \<Rightarrow> dbl" where
  "of_size n = Fin (real_of_int (nearest_double (int n)))"

text \<open>
  The expression \<^verbatim>\<open>static_cast<double>(x) + xOrigin\<close>: the size and the index are
  converted, and the sum of the two doubles, an integer, is rounded.
\<close>

definition index_sum :: "nat \<Rightarrow> int \<Rightarrow> dbl" where
  "index_sum x origin =
     Fin (real_of_int (nearest_double (nearest_double (int x) + nearest_double origin)))"

section \<open>Projections\<close>

datatype projection = WebMercatorProjection | MollweideProjection

text \<open>\<^verbatim>\<open>WebMercatorProjection::reverse\<close>; the result is the pair \<open>(lng, lat)\<close>.\<close>

definition WebMercator_reverse :: "dbl \<Rightarrow> dbl \<Rightarrow> dbl \<times> dbl" where
  "WebMercator_reverse x y =
     (let lng = dsub (dmul x (Fin 360)) (Fin 180);
          lat_rad = datan (dsinh (dmul PI (dsub (Fin 1) (dmul (Fin 2) y))));
          lat = ddiv (dmul lat_rad (Fin 180)) PI
      in (lng, lat))"

text \<open>\<^verbatim>\<open>MollweideProjection::reverse\<close>, statement by statement.\<close>

definition Mollweide_reverse :: "dbl \<Rightarrow> dbl \<Rightarrow> dbl \<times> dbl" where
  "Mollweide_reverse x y =
     (let R = Fin 1;
          lambda0 = Fin 0;
          r_sqrt2 = dmul R (dsqrt (Fin 2));
          x1 = dmul x (dmul (Fin 4) r_sqrt2);
          x2 = dsub x1 (dmul (Fin 2) r_sqrt2);
          y1 = dmul y (dmul (Fin 4) r_sqrt2);
          y2 = dsub y1 (dmul (Fin 2) r_sqrt2);
          theta = dasin (ddiv y2 r_sqrt2);
          phi = dasin (ddiv (dadd (dmul (Fin 2) theta) (dsin (dmul (Fin 2) theta))) PI);
          lambda = dadd lambda0
                     (ddiv (dmul PI x2) (dmul (dmul (Fin 2) r_sqrt2) (dcos theta)));
          lng = ddiv (dmul lambda (Fin 180)) PI;
          lat = ddiv (dmul phi (Fin (- 180))) PI
      in (lng, lat))"

fun reverse :: "projection \<Rightarrow> dbl \<Rightarrow> dbl \<Rightarrow> dbl \<times> dbl" where
  "reverse WebMercatorProjection x y = WebMercator_reverse x y"
| "reverse MollweideProjection x y = Mollweide_reverse x y"

text \<open>\<^verbatim>\<open>getProjection\<close>: the empty shared pointer is \<open>None\<close>.\<close>

definition getProjection :: "string \<Rightarrow> projection option" where
  "getProjection name =
     (if name = ''epsg:3857'' then Some WebMercatorProjection
      else if name = ''mollweide'' then Some MollweideProjection
      else None)"

section \<open>Grids\<close>

text \<open>
  Modelled from the spec: \<^verbatim>\<open>Grid<T>\<close> of \<^verbatim>\<open>grid.hpp\<close>, which is not among the sources.
  A grid is a view of a flat buffer with a row stride and its extents; the element at
  \<open>(row, col)\<close> is the one at offset \<open>row * stride + col\<close>. The buffer is a function of
  the offset: as in the source, no access is checked against the buffer's length.
\<close>

record 'a grid =
  buf :: "nat \<Rightarrow> 'a"
  stride :: nat
  nrow :: nat
  ncol :: nat

definition grid_at :: "'a grid \<Rightarrow> nat \<Rightarrow> nat \<Rightarrow> 'a" where
  "grid_at g r c = buf g (r * stride g + c)"

text \<open>The assignment \<^verbatim>\<open>*g.at(r, c) = v\<close>.\<close>

definition grid_put :: "'a grid \<Rightarrow> nat \<Rightarrow> nat \<Rightarrow> 'a \<Rightarrow> 'a grid" where
  "grid_put g r c v = g\<lparr>buf := (buf g)(r * stride g + c := v)\<rparr>"

section \<open>The resampling worker\<close>

text \<open>
  The fields of \<^verbatim>\<open>ProjectionWorker<T>\<close> but the target, which the worker writes and
  which is therefore part of the state. \<^verbatim>\<open>Interpolator<T>::getValue\<close> lives in
  \<^verbatim>\<open>resample_algos.hpp\<close>, not among the sources: the interpolator is the function
  from the source grid and the fractional column and row to the sample.
\<close>

record 'a ProjectionWorker =
  pProj :: projection
  pInterp :: "'a grid \<Rightarrow> dbl \<Rightarrow> dbl \<Rightarrow> 'a"
  pSrc :: "'a grid"
  lat1 :: dbl
  lat2 :: dbl
  lng1 :: dbl
  lng2 :: dbl
  xOrigin :: int
  xTotal :: int
  yOrigin :: int
  yTotal :: int

text \<open>
  The state of a pass: the target grid, and a log (not in the source) of the cells
  written so far, each with the branch that wrote it.
\<close>

datatype branch = Interpolated | NoData

record 'a pass =
  tgt :: "'a grid"
  written :: "(nat \<times> nat \<times> branch) list"

text \<open>
  One iteration of the loop of \<^verbatim>\<open>ProjectionWorker::operator()\<close>, for the index \<open>i\<close>.
  \<open>toT\<close> is the implicit conversion from double to the element type \<open>T\<close> in the
  assignment of the else branch.
\<close>

definition worker_body ::
  "(dbl \<Rightarrow> 'a) \<Rightarrow> 'a ProjectionWorker \<Rightarrow> nat \<Rightarrow> 'a pass \<Rightarrow> 'a pass" where
  "worker_body toT W i s =
     (let x = i div nrow (tgt s);
          y = i mod nrow (tgt s);
          xNorm = ddiv (index_sum x (xOrigin W)) (of_index (xTotal W));
          yNorm = ddiv (index_sum y (yOrigin W)) (of_index (yTotal W));
          (lng, lat) = reverse (pProj W) xNorm yNorm;
          srcXNorm = ddiv (dsub lng (lng1 W)) (dsub (lng2 W) (lng1 W));
          srcYNorm = dsub (Fin 1) (ddiv (dsub lat (lat1 W)) (dsub (lat2 W) (lat1 W)))
      in if dge srcXNorm (Fin 0) \<and> dlt srcXNorm (Fin 1) \<and>
            dge srcYNorm (Fin 0) \<and> dlt srcYNorm (Fin 1)
         then s\<lparr>tgt := grid_put (tgt s) y x
                         (pInterp W (pSrc W)
                            (dmul srcXNorm (of_size (ncol (pSrc W))))
                            (dmul srcYNorm (of_size (nrow (pSrc W))))),
                written := written s @ [(y, x, Interpolated)]\<rparr>
         else s\<lparr>tgt := grid_put (tgt s) y x (toT (Fin (- DBL_MAX))),
                written := written s @ [(y, x, NoData)]\<rparr>)"

text \<open>\<^verbatim>\<open>ProjectionWorker::operator()(begin, end)\<close>: the loop over \<open>[i, e)\<close>.\<close>

function worker_call ::
  "(dbl \<Rightarrow> 'a) \<Rightarrow> 'a ProjectionWorker \<Rightarrow> nat \<Rightarrow> nat \<Rightarrow> 'a pass \<Rightarrow> 'a pass" where
  "worker_call toT W i e s =
     (if i < e then worker_call toT W (Suc i) e (worker_body toT W i s) else s)"
  by pat_completeness auto
termination
  by (relation "measure (\<lambda>(toT, W, i, e, s). e - i)") auto

text \<open>
  \<^verbatim>\<open>RcppParallel::parallelFor\<close> hands the worker sub-ranges that partition the range,
  none shorter than the grain size but the last. The threads are not modelled: the
  sub-ranges are run one after the other, in the order of the indices.
\<close>

function parallelFor ::
  "nat \<Rightarrow> nat \<Rightarrow> (nat \<Rightarrow> nat \<Rightarrow> 's \<Rightarrow> 's) \<Rightarrow> nat \<Rightarrow> 's \<Rightarrow> 's" where
  "parallelFor b e worker grainSize s =
     (if b < e
      then (let m = min e (b + max 1 grainSize)
            in parallelFor m e worker grainSize (worker b m s))
      else s)"
  by pat_completeness auto
termination
  by (relation "measure (\<lambda>(b, e, worker, grainSize, s). e - b)") auto

text \<open>The function \<^verbatim>\<open>project\<close>; the log starts empty.\<close>

definition project ::
  "(dbl \<Rightarrow> 'a) \<Rightarrow> projection \<Rightarrow> ('a grid \<Rightarrow> dbl \<Rightarrow> dbl \<Rightarrow> 'a) \<Rightarrow> 'a grid \<Rightarrow>
   dbl \<Rightarrow> dbl \<Rightarrow> dbl \<Rightarrow> dbl \<Rightarrow> 'a grid \<Rightarrow> int \<Rightarrow> int \<Rightarrow> int \<Rightarrow> int \<Rightarrow> 'a pass" where
  "project toT pProject pInterp' src lat1' lat2' lng1' lng2' tgt' xOrigin' xTotal' yOrigin' yTotal' =
     (let worker = \<lparr>pProj = pProject, pInterp = pInterp', pSrc = src,
                     lat1 = lat1', lat2 = lat2', lng1 = lng1', lng2 = lng2',
                     xOrigin = xOrigin', xTotal = xTotal',
                     yOrigin = yOrigin', yTotal = yTotal'\<rparr>
      in parallelFor 0 (nrow tgt' * ncol tgt') (worker_call toT worker) 256
           \<lparr>tgt = tgt', written = []\<rparr>)"

section \<open>The pixel as the specification describes it\<close>

text \<open>
  Steps 1 to 3 of the specification's section 4.4 for the target pixel \<open>(row, col)\<close>:
  the normalized global position, its reverse projection, and the position normalized
  to the source's bounding box; the result is \<open>(src_x_norm, src_y_norm)\<close>.
\<close>

definition spec_x_norm :: "'a ProjectionWorker \<Rightarrow> nat \<Rightarrow> dbl" where
  "spec_x_norm W col = ddiv (index_sum col (xOrigin W)) (of_index (xTotal W))"

definition spec_y_norm :: "'a ProjectionWorker \<Rightarrow> nat \<Rightarrow> dbl" where
  "spec_y_norm W row = ddiv (index_sum row (yOrigin W)) (of_index (yTotal W))"

definition spec_src_x_norm :: "'a ProjectionWorker \<Rightarrow> nat \<Rightarrow> nat \<Rightarrow> dbl" where
  "spec_src_x_norm W row col =
     (let lng = fst (reverse (pProj W) (spec_x_norm W col) (spec_y_norm W row))
      in ddiv (dsub lng (lng1 W)) (dsub (lng2 W) (lng1 W)))"

definition spec_src_y_norm :: "'a ProjectionWorker \<Rightarrow> nat \<Rightarrow> nat \<Rightarrow> dbl" where
  "spec_src_y_norm W row col =
     (let lat = snd (reverse (pProj W) (spec_x_norm W col) (spec_y_norm W row))
      in dsub (Fin 1) (ddiv (dsub lat (lat1 W)) (dsub (lat2 W) (lat1 W))))"

text \<open>Membership in the half-open interval \<open>[0, 1)\<close>.\<close>

definition in_unit :: "dbl \<Rightarrow> bool" where
  "in_unit v = (dge v (Fin 0) \<and> dlt v (Fin 1))"

definition spec_in_source :: "'a ProjectionWorker \<Rightarrow> nat \<Rightarrow> nat \<Rightarrow> bool" where
  "spec_in_source W row col =
     (in_unit (spec_src_x_norm W row col) \<and> in_unit (spec_src_y_norm W row col))"

text \<open>
  Step 4: the interpolated sample inside the source, the value of the else branch
  outside. What that value is in the element type is the subject of its own section.
\<close>

definition spec_pixel :: "(dbl \<Rightarrow> 'a) \<Rightarrow> 'a ProjectionWorker \<Rightarrow> nat \<Rightarrow> nat \<Rightarrow> 'a" where
  "spec_pixel toT W row col =
     (if spec_in_source W row col
      then pInterp W (pSrc W)
             (dmul (spec_src_x_norm W row col) (of_size (ncol (pSrc W))))
             (dmul (spec_src_y_norm W row col) (of_size (nrow (pSrc W))))
      else toT (Fin (- DBL_MAX)))"

definition spec_branch :: "'a ProjectionWorker \<Rightarrow> nat \<Rightarrow> nat \<Rightarrow> branch" where
  "spec_branch W row col = (if spec_in_source W row col then Interpolated else NoData)"

text \<open>The worker that \<^verbatim>\<open>project\<close> builds from its arguments.\<close>

definition mk_worker ::
  "projection \<Rightarrow> ('a grid \<Rightarrow> dbl \<Rightarrow> dbl \<Rightarrow> 'a) \<Rightarrow> 'a grid \<Rightarrow>
   dbl \<Rightarrow> dbl \<Rightarrow> dbl \<Rightarrow> dbl \<Rightarrow> int \<Rightarrow> int \<Rightarrow> int \<Rightarrow> int \<Rightarrow> 'a ProjectionWorker" where
  "mk_worker p f src la1 la2 ln1 ln2 xo xt yo yt =
     \<lparr>pProj = p, pInterp = f, pSrc = src, lat1 = la1, lat2 = la2, lng1 = ln1, lng2 = ln2,
      xOrigin = xo, xTotal = xt, yOrigin = yo, yTotal = yt\<rparr>"

text \<open>The column-major decomposition of an index, as \<open>(row, col)\<close>.\<close>

definition cell_of :: "nat \<Rightarrow> nat \<Rightarrow> nat \<times> nat" where
  "cell_of rows i = (i mod rows, i div rows)"

section \<open>Element types\<close>

text \<open>
  The element types \<^verbatim>\<open>double\<close> and \<^verbatim>\<open>float\<close>, their most negative finite values
  (\<^verbatim>\<open>std::numeric_limits<T>::lowest()\<close>), and the conversion from double that an
  assignment to an element performs. A double beyond the range of float becomes an
  infinity, as IEEE 754 rounds it; values of both types are kept as \<open>dbl\<close>.
\<close>

datatype elem_type = Float64 | Float32

definition FLT_MAX :: real where
  "FLT_MAX = (2 - 1 / 2 ^ 23) * 2 ^ 127"

fun lowest :: "elem_type \<Rightarrow> real" where
  "lowest Float64 = - DBL_MAX"
| "lowest Float32 = - FLT_MAX"

fun double_to_float :: "dbl \<Rightarrow> dbl" where
  "double_to_float (Fin a) =
     (if (2 - 1 / 2 ^ 24) * 2 ^ 127 \<le> a then PInf
      else if a \<le> - ((2 - 1 / 2 ^ 24) * 2 ^ 127) then NInf
      else if FLT_MAX < a then Fin FLT_MAX
      else if a < - FLT_MAX then Fin (- FLT_MAX)
      else Fin a)"
| "double_to_float v = v"

fun to_elem :: "elem_type \<Rightarrow> dbl \<Rightarrow> dbl" where
  "to_elem Float64 v = v"
| "to_elem Float32 v = double_to_float v"

section \<open>The exported operation\<close>

text \<open>
  \<^verbatim>\<open>project.cpp\<close>. The files are a function from the path to the mapped buffer. The
  function template \<^verbatim>\<open>project_webmercator<T, Interp>\<close> of \<^verbatim>\<open>project_webmercator.hpp\<close>
  is not among the sources: it is the parameter \<open>engine\<close>, which receives the two
  template arguments, the interpolator's kind included, and returns the target grid
  as it has written it. The constructor of \<^verbatim>\<open>Grid<T>\<close> and the type \<^verbatim>\<open>index_t\<close> of
  its extents are in \<^verbatim>\<open>grid.hpp\<close>, not among the sources either: the parameter
  \<open>mk_grid\<close> builds the grid from the mapped buffer and the stride, the rows and the
  columns as the exported operation receives them.
\<close>

datatype interpolation = Bilinear

definition project_webmercator_files ::
  "(elem_type \<Rightarrow> interpolation \<Rightarrow> dbl grid \<Rightarrow> dbl \<Rightarrow> dbl \<Rightarrow> dbl \<Rightarrow> dbl \<Rightarrow>
      dbl grid \<Rightarrow> int \<Rightarrow> int \<Rightarrow> int \<Rightarrow> int \<Rightarrow> dbl grid) \<Rightarrow>
   ((nat \<Rightarrow> dbl) \<Rightarrow> int \<Rightarrow> int \<Rightarrow> int \<Rightarrow> dbl grid) \<Rightarrow>
   (string \<Rightarrow> nat \<Rightarrow> dbl) \<Rightarrow>
   string \<Rightarrow> int \<Rightarrow> int \<Rightarrow> int \<Rightarrow> int \<Rightarrow> int \<Rightarrow> int \<Rightarrow> int \<Rightarrow>
   string \<Rightarrow> int \<Rightarrow> int \<Rightarrow> int \<Rightarrow> int \<Rightarrow> int \<Rightarrow> int \<Rightarrow> int \<Rightarrow>
   (string \<Rightarrow> nat \<Rightarrow> dbl)" where
  "project_webmercator_files engine mk_grid files
     from fromStride fromRows fromCols lng1' lng2' lat1' lat2'
     to toStride toRows toCols x y totalWidth totalHeight =
     (let from_f = files from;
          to_f = files to;
          from_g = mk_grid from_f fromStride fromRows fromCols;
          to_g = mk_grid to_f toStride toRows toCols;
          interp = Bilinear
      in files(to := buf (engine Float64 interp from_g
                            (of_index lat1') (of_index lat2') (of_index lng1') (of_index lng2')
                            to_g x totalWidth y totalHeight)))"

definition project_webmercator ::
  "(elem_type \<Rightarrow> interpolation \<Rightarrow> dbl grid \<Rightarrow> dbl \<Rightarrow> dbl \<Rightarrow> dbl \<Rightarrow> dbl \<Rightarrow>
      dbl grid \<Rightarrow> int \<Rightarrow> int \<Rightarrow> int \<Rightarrow> int \<Rightarrow> dbl grid) \<Rightarrow>
   ((nat \<Rightarrow> dbl) \<Rightarrow> int \<Rightarrow> int \<Rightarrow> int \<Rightarrow> dbl grid) \<Rightarrow>
   (string \<Rightarrow> nat \<Rightarrow> dbl) \<Rightarrow>
   string \<Rightarrow> int \<Rightarrow> int \<Rightarrow> int \<Rightarrow> int \<Rightarrow> int \<Rightarrow> int \<Rightarrow> int \<Rightarrow>
   string \<Rightarrow> int \<Rightarrow> int \<Rightarrow> int \<Rightarrow> int \<Rightarrow> int \<Rightarrow> int \<Rightarrow> int \<Rightarrow>
   string \<Rightarrow> string \<Rightarrow> (string \<Rightarrow> nat \<Rightarrow> dbl)" where
  "project_webmercator engine mk_grid files
     from fromStride fromRows fromCols lng1' lng2' lat1' lat2'
     to toStride toRows toCols x y totalWidth totalHeight dataFormat method =
     project_webmercator_files engine mk_grid files
       from fromStride fromRows fromCols lng1' lng2' lat1' lat2'
       to toStride toRows toCols x y totalWidth totalHeight"

section \<open>Resolving the projection before the pass\<close>

text \<open>
  Modelled from the spec: the caller-facing operation \<open>reproject\<close> of the
  specification's section 6, which resolves the projection identifier to an instance
  before the resampling pass and fails when there is none. No caller of
  \<^verbatim>\<open>getProjection\<close> is among the sources, and \<^verbatim>\<open>project\<close> itself takes the
  instance as a plain pointer that it does not test.
\<close>

datatype 'r outcome = Failure | Success 'r

definition reproject ::
  "(dbl \<Rightarrow> 'a) \<Rightarrow> ('a grid \<Rightarrow> dbl \<Rightarrow> dbl \<Rightarrow> 'a) \<Rightarrow> 'a grid \<Rightarrow>
   dbl \<Rightarrow> dbl \<Rightarrow> dbl \<Rightarrow> dbl \<Rightarrow> 'a grid \<Rightarrow> int \<Rightarrow> int \<Rightarrow> int \<Rightarrow> int \<Rightarrow> string \<Rightarrow>
   'a pass outcome" where
  "reproject toT interp src lat_south lat_north lng_west lng_east target
     x_origin x_total y_origin y_total projection_id =
     (case getProjection projection_id of
        None \<Rightarrow> Failure
      | Some p \<Rightarrow> Success (project toT p interp src lat_south lat_north lng_west lng_east
                             target x_origin x_total y_origin y_total))"

section \<open>Auxiliary notions\<close>

text \<open>The offset in the target's buffer that the iteration for index \<open>i\<close> writes.\<close>

definition cell_addr :: "'a grid \<Rightarrow> nat \<Rightarrow> nat" where
  "cell_addr g i = (i mod nrow g) * stride g + i div nrow g"

text \<open>
  Inputs for examples: a buffer of zeros, and an interpolator whose sample is the
  fractional column it is asked for.
\<close>

definition blank :: "nat \<Rightarrow> dbl" where
  "blank a = Fin 0"

definition sample_column :: "dbl grid \<Rightarrow> dbl \<Rightarrow> dbl \<Rightarrow> dbl" where
  "sample_column g x y = x"

text \<open>A double that is an infinity or NaN.\<close>

fun dspecial :: "dbl \<Rightarrow> bool" where
  "dspecial (Fin a) = False"
| "dspecial _ = True"

section \<open>Integers that are doubles\<close>

declare spacing.simps [simp del]

lemma spacing_below: "m < 2 ^ 53 \<Longrightarrow> spacing m = 1"
  by (simp add: spacing.simps [of m])

lemma spacing_step: "2 ^ 53 \<le> m \<Longrightarrow> spacing m = 2 * spacing (m div 2)"
  by (simp add: spacing.simps [of m])

lemma nearest_double_exact:
  assumes "\<bar>n\<bar> \<le> 2 ^ 53"
  shows "nearest_double n = n"
proof (cases "\<bar>n\<bar> < 2 ^ 53")
  case True
  then show ?thesis by (simp add: nearest_double_def spacing_below)
next
  case False
  with assms have n: "\<bar>n\<bar> = 2 ^ 53" by simp
  have "spacing \<bar>n\<bar> = 2" by (simp add: n spacing_step spacing_below)
  moreover from n have "n = 2 ^ 53 \<or> n = - (2 ^ 53)" by (simp add: abs_if split: if_splits)
  ultimately show ?thesis by (auto simp: nearest_double_def)
qed

lemma of_index_exact: "\<bar>n\<bar> \<le> 2 ^ 53 \<Longrightarrow> of_index n = Fin (real_of_int n)"
  by (simp add: of_index_def nearest_double_exact)

lemma of_size_exact: "int n \<le> 2 ^ 53 \<Longrightarrow> of_size n = Fin (real n)"
  by (simp add: of_size_def nearest_double_exact)

lemma index_sum_exact:
  assumes "int x \<le> 2 ^ 53" and "\<bar>origin\<bar> \<le> 2 ^ 53"
  shows "index_sum x origin = Fin (real_of_int (nearest_double (int x + origin)))"
  using assms by (simp add: index_sum_def nearest_double_exact)

lemma index_sum_small:
  assumes "int x \<le> 2 ^ 52" and "\<bar>origin\<bar> \<le> 2 ^ 52"
  shows "index_sum x origin = Fin (real x + real_of_int origin)"
proof -
  have "\<bar>int x + origin\<bar> \<le> 2 ^ 53" using assms by simp
  then show ?thesis
    using assms by (simp add: index_sum_def nearest_double_exact)
qed

section \<open>The loop of the worker\<close>


lemma worker_body_eq:
  "worker_body toT W i s =
     s\<lparr>tgt := grid_put (tgt s) (i mod nrow (tgt s)) (i div nrow (tgt s))
                (spec_pixel toT W (i mod nrow (tgt s)) (i div nrow (tgt s))),
       written := written s @
         [(i mod nrow (tgt s), i div nrow (tgt s),
           spec_branch W (i mod nrow (tgt s)) (i div nrow (tgt s)))]\<rparr>"
  by (simp add: worker_body_def spec_pixel_def spec_branch_def spec_in_source_def in_unit_def
      spec_src_x_norm_def spec_src_y_norm_def spec_x_norm_def spec_y_norm_def Let_def
      split: prod.split)

lemma grid_put_dims [simp]:
  "nrow (grid_put g r c v) = nrow g" "ncol (grid_put g r c v) = ncol g"
  "stride (grid_put g r c v) = stride g"
  by (simp_all add: grid_put_def)

lemma worker_body_dims [simp]:
  "nrow (tgt (worker_body toT W i s)) = nrow (tgt s)"
  "ncol (tgt (worker_body toT W i s)) = ncol (tgt s)"
  "stride (tgt (worker_body toT W i s)) = stride (tgt s)"
  by (simp_all add: worker_body_eq)

declare worker_call.simps [simp del]

lemma worker_call_dims:
  "nrow (tgt (worker_call toT W i e s)) = nrow (tgt s) \<and>
   ncol (tgt (worker_call toT W i e s)) = ncol (tgt s) \<and>
   stride (tgt (worker_call toT W i e s)) = stride (tgt s)"
proof (induction toT W i e s rule: worker_call.induct)
  case (1 toT W i e s)
  show ?case
  proof (cases "i < e")
    case True
    then show ?thesis using 1 by (simp add: worker_call.simps [of toT W i e s])
  next
    case False
    then show ?thesis by (simp add: worker_call.simps [of toT W i e s])
  qed
qed

lemma worker_call_split:
  "b \<le> m \<Longrightarrow> m \<le> e \<Longrightarrow>
   worker_call toT W m e (worker_call toT W b m s) = worker_call toT W b e s"
proof (induction toT W b m s rule: worker_call.induct)
  case (1 toT W i m s)
  show ?case
  proof (cases "i < m")
    case True
    then have "worker_call toT W m e (worker_call toT W i m s) =
          worker_call toT W m e (worker_call toT W (Suc i) m (worker_body toT W i s))"
      by (simp add: worker_call.simps [of toT W i m s])
    also have "\<dots> = worker_call toT W (Suc i) e (worker_body toT W i s)"
      using 1 True by simp
    also have "\<dots> = worker_call toT W i e s"
      using True 1(3) by (simp add: worker_call.simps [of toT W i e s])
    finally show ?thesis .
  next
    case False
    with 1(2) have "i = m" by simp
    then show ?thesis by (simp add: worker_call.simps [of toT W m m s])
  qed
qed

declare parallelFor.simps [simp del]

lemma parallelFor_worker_call:
  "parallelFor b e (worker_call toT W) g s = worker_call toT W b e s"
proof (induction b e "worker_call toT W" g s rule: parallelFor.induct)
  case (1 b e g s)
  show ?case
  proof (cases "b < e")
    case True
    define m where "m = min e (b + max 1 g)"
    have bm: "b \<le> m" "m \<le> e" using True by (simp_all add: m_def)
    have "parallelFor b e (worker_call toT W) g s =
          parallelFor m e (worker_call toT W) g (worker_call toT W b m s)"
      using True by (simp add: parallelFor.simps [of b e _ g s] m_def Let_def)
    also have "\<dots> = worker_call toT W m e (worker_call toT W b m s)"
      using 1 [OF True m_def] by simp
    also have "\<dots> = worker_call toT W b e s"
      using bm by (rule worker_call_split)
    finally show ?thesis .
  next
    case False
    then show ?thesis
      by (simp add: parallelFor.simps [of b e _ g s] worker_call.simps [of toT W b e s])
  qed
qed



lemma worker_body_buf:
  "buf (tgt (worker_body toT W i s)) =
     (buf (tgt s)) (cell_addr (tgt s) i :=
        spec_pixel toT W (i mod nrow (tgt s)) (i div nrow (tgt s)))"
  by (simp add: worker_body_eq grid_put_def cell_addr_def)

lemma worker_body_written:
  "written (worker_body toT W i s) =
     written s @ [(i mod nrow (tgt s), i div nrow (tgt s),
                   spec_branch W (i mod nrow (tgt s)) (i div nrow (tgt s)))]"
  by (simp add: worker_body_eq)

lemma cell_addr_body [simp]:
  "cell_addr (tgt (worker_body toT W i s)) = cell_addr (tgt s)"
  by (rule ext) (simp add: cell_addr_def)

lemma worker_call_written:
  "written (worker_call toT W i e s) =
     written s @ map (\<lambda>j. (j mod nrow (tgt s), j div nrow (tgt s),
                            spec_branch W (j mod nrow (tgt s)) (j div nrow (tgt s)))) [i..<e]"
proof (induction toT W i e s rule: worker_call.induct)
  case (1 toT W i e s)
  show ?case
  proof (cases "i < e")
    case True
    then show ?thesis
      using 1 by (simp add: worker_call.simps [of toT W i e s] worker_body_written upt_conv_Cons)
  next
    case False
    then show ?thesis by (simp add: worker_call.simps [of toT W i e s])
  qed
qed

lemma worker_call_frame:
  "(\<And>j. i \<le> j \<Longrightarrow> j < e \<Longrightarrow> cell_addr (tgt s) j \<noteq> a) \<Longrightarrow>
   buf (tgt (worker_call toT W i e s)) a = buf (tgt s) a"
proof (induction toT W i e s rule: worker_call.induct)
  case (1 toT W i e s)
  show ?case
  proof (cases "i < e")
    case True
    have "buf (tgt (worker_call toT W (Suc i) e (worker_body toT W i s))) a =
          buf (tgt (worker_body toT W i s)) a"
      using True 1(2) by (intro 1(1)) simp_all
    also have "\<dots> = buf (tgt s) a"
      using 1(2) [of i] True by (simp add: worker_body_buf)
    finally show ?thesis
      using True by (simp add: worker_call.simps [of toT W i e s])
  next
    case False
    then show ?thesis by (simp add: worker_call.simps [of toT W i e s])
  qed
qed

lemma worker_call_value:
  "inj_on (cell_addr (tgt s)) {i..<e} \<Longrightarrow> i \<le> j \<Longrightarrow> j < e \<Longrightarrow>
   buf (tgt (worker_call toT W i e s)) (cell_addr (tgt s) j) =
     spec_pixel toT W (j mod nrow (tgt s)) (j div nrow (tgt s))"
proof (induction toT W i e s rule: worker_call.induct)
  case (1 toT W i e s)
  from 1(3,4) have ie: "i < e" by simp
  have inj': "inj_on (cell_addr (tgt s)) {Suc i..<e}"
    using 1(2) by (rule inj_on_subset) auto
  show ?case
  proof (cases "j = i")
    case True
    have "buf (tgt (worker_call toT W (Suc i) e (worker_body toT W i s))) (cell_addr (tgt s) i) =
          buf (tgt (worker_body toT W i s)) (cell_addr (tgt s) i)"
    proof (rule worker_call_frame)
      fix k assume k: "Suc i \<le> k" "k < e"
      then have "k \<in> {i..<e}" "i \<in> {i..<e}" "k \<noteq> i" using ie by simp_all
      then have "cell_addr (tgt s) k \<noteq> cell_addr (tgt s) i"
        using 1(2) by (meson inj_onD)
      then show "cell_addr (tgt (worker_body toT W i s)) k \<noteq> cell_addr (tgt s) i" by simp
    qed
    then show ?thesis
      using True ie by (simp add: worker_call.simps [of toT W i e s] worker_body_buf)
  next
    case False
    with 1(3) have "Suc i \<le> j" by simp
    then have "buf (tgt (worker_call toT W (Suc i) e (worker_body toT W i s)))
                 (cell_addr (tgt (worker_body toT W i s)) j) =
               spec_pixel toT W (j mod nrow (tgt (worker_body toT W i s)))
                 (j div nrow (tgt (worker_body toT W i s)))"
      using ie inj' 1(4) by (intro 1(1)) simp_all
    then show ?thesis
      using ie by (simp add: worker_call.simps [of toT W i e s])
  qed
qed

lemma cell_addr_inj:
  assumes "ncol g \<le> stride g"
  shows "inj_on (cell_addr g) {0..<nrow g * ncol g}"
proof (rule inj_onI)
  fix i j assume i: "i \<in> {0..<nrow g * ncol g}" and j: "j \<in> {0..<nrow g * ncol g}"
    and eq: "cell_addr g i = cell_addr g j"
  have lt: "k div nrow g < stride g" if "k < nrow g * ncol g" for k
  proof -
    from that have "k div nrow g < ncol g"
      by (simp add: less_mult_imp_div_less mult.commute)
    with assms show ?thesis by simp
  qed
  from i j have li: "i div nrow g < stride g" and lj: "j div nrow g < stride g"
    by (simp_all add: lt)
  from eq have "(i mod nrow g * stride g + i div nrow g) mod stride g =
                (j mod nrow g * stride g + j div nrow g) mod stride g"
    and "(i mod nrow g * stride g + i div nrow g) div stride g =
         (j mod nrow g * stride g + j div nrow g) div stride g"
    by (simp_all add: cell_addr_def)
  with li lj have "i div nrow g = j div nrow g" and "i mod nrow g = j mod nrow g"
    by simp_all
  then show "i = j"
    by (metis div_mult_mod_eq)
qed


lemma project_worker_call:
  "project toT p f src la1 la2 ln1 ln2 t xo xt yo yt =
     worker_call toT (mk_worker p f src la1 la2 ln1 ln2 xo xt yo yt) 0 (nrow t * ncol t)
       \<lparr>tgt = t, written = []\<rparr>"
  by (simp add: project_def mk_worker_def parallelFor_worker_call)

lemma project_dims:
  "nrow (tgt (project toT p f src la1 la2 ln1 ln2 t xo xt yo yt)) = nrow t"
  "ncol (tgt (project toT p f src la1 la2 ln1 ln2 t xo xt yo yt)) = ncol t"
  "stride (tgt (project toT p f src la1 la2 ln1 ln2 t xo xt yo yt)) = stride t"
  by (simp_all add: project_worker_call worker_call_dims)

lemma project_written:
  "written (project toT p f src la1 la2 ln1 ln2 t xo xt yo yt) =
     map (\<lambda>j. (j mod nrow t, j div nrow t,
                spec_branch (mk_worker p f src la1 la2 ln1 ln2 xo xt yo yt)
                  (j mod nrow t) (j div nrow t))) [0..<nrow t * ncol t]"
  by (simp add: project_worker_call worker_call_written)

lemma index_of_cell:
  assumes "row < (rows::nat)"
  shows "(col * rows + row) mod rows = row \<and> (col * rows + row) div rows = col"
  using assms by simp

lemma index_in_range:
  assumes "row < rows" "col < cols"
  shows "col * rows + row < rows * (cols::nat)"
proof -
  have "col * rows + row < col * rows + rows" using assms by simp
  also have "\<dots> = rows * Suc col" by simp
  also have "\<dots> \<le> rows * cols" using assms by (intro mult_le_mono2) simp
  finally show ?thesis .
qed

lemma project_at:
  assumes "ncol t \<le> stride t" "row < nrow t" "col < ncol t"
  shows "grid_at (tgt (project toT p f src la1 la2 ln1 ln2 t xo xt yo yt)) row col =
         spec_pixel toT (mk_worker p f src la1 la2 ln1 ln2 xo xt yo yt) row col"
proof -
  let ?W = "mk_worker p f src la1 la2 ln1 ln2 xo xt yo yt"
  let ?s = "\<lparr>tgt = t, written = []\<rparr>"
  let ?j = "col * nrow t + row"
  have inj: "inj_on (cell_addr (tgt ?s)) {0..<nrow t * ncol t}"
    using cell_addr_inj [OF assms(1)] by simp
  have j: "?j < nrow t * ncol t" using assms(2,3) by (rule index_in_range)
  have "buf (tgt (worker_call toT ?W 0 (nrow t * ncol t) ?s)) (cell_addr (tgt ?s) ?j) =
        spec_pixel toT ?W (?j mod nrow (tgt ?s)) (?j div nrow (tgt ?s))"
    using inj _ j by (rule worker_call_value) simp
  then show ?thesis
    using assms(2)
    by (simp add: project_worker_call grid_at_def cell_addr_def worker_call_dims)
qed

lemma project_frame:
  assumes "\<And>row col. row < nrow t \<Longrightarrow> col < ncol t \<Longrightarrow> row * stride t + col \<noteq> a"
  shows "buf (tgt (project toT p f src la1 la2 ln1 ln2 t xo xt yo yt)) a = buf t a"
proof -
  have "buf (tgt (worker_call toT (mk_worker p f src la1 la2 ln1 ln2 xo xt yo yt) 0
           (nrow t * ncol t) \<lparr>tgt = t, written = []\<rparr>)) a =
        buf (tgt \<lparr>tgt = t, written = []\<rparr>) a"
  proof (rule worker_call_frame)
    fix j assume j: "j < nrow t * ncol t"
    then have "0 < nrow t" by (cases "nrow t") simp_all
    then have "j mod nrow t < nrow t" by simp
    moreover from j have "j div nrow t < ncol t"
      by (simp add: less_mult_imp_div_less mult.commute)
    ultimately show "cell_addr (tgt \<lparr>tgt = t, written = []\<rparr>) j \<noteq> a"
      using assms by (simp add: cell_addr_def)
  qed
  then show ?thesis by (simp add: project_worker_call)
qed

lemma cell_of_bij:
  "bij_betw (cell_of rows) {0..<rows * cols} ({0..<rows} \<times> {0..<cols})"
proof (rule bij_betw_byWitness [where f' = "\<lambda>(row, col). col * rows + row"])
  show "\<forall>i\<in>{0..<rows * cols}. (case cell_of rows i of (row, col) \<Rightarrow> col * rows + row) = i"
    by (simp add: cell_of_def)
  show "\<forall>c\<in>{0..<rows} \<times> {0..<cols}. cell_of rows (case c of (row, col) \<Rightarrow> col * rows + row) = c"
    by (auto simp: cell_of_def)
  show "cell_of rows ` {0..<rows * cols} \<subseteq> {0..<rows} \<times> {0..<cols}"
  proof
    fix c assume "c \<in> cell_of rows ` {0..<rows * cols}"
    then obtain i where i: "i < rows * cols" and c: "c = cell_of rows i" by auto
    from i have "0 < rows" by (cases rows) simp_all
    moreover from i have "i div rows < cols"
      by (simp add: less_mult_imp_div_less mult.commute)
    ultimately show "c \<in> {0..<rows} \<times> {0..<cols}" by (simp add: c cell_of_def)
  qed
  show "(\<lambda>(row, col). col * rows + row) ` ({0..<rows} \<times> {0..<cols}) \<subseteq> {0..<rows * cols}"
    using index_in_range by auto
qed

lemma project_written_cells:
  "map (\<lambda>(row, col, b). (row, col)) (written (project toT p f src la1 la2 ln1 ln2 t xo xt yo yt)) =
   map (cell_of (nrow t)) [0..<nrow t * ncol t]"
  by (simp add: project_written cell_of_def)

lemma count_list_upt:
  "count_list [i..<n] j = (if i \<le> j \<and> j < n then 1 else 0)"
  by (induction n) auto

lemma count_cell_once:
  assumes "row < rows" "col < cols"
  shows "count_list (map (cell_of rows) [0..<rows * cols]) (row, col) = 1"
proof -
  let ?j = "col * rows + row"
  have j: "?j < rows * cols" using assms by (rule index_in_range)
  have inj: "inj_on (cell_of rows) (set [0..<rows * cols])"
    using cell_of_bij [of rows cols] by (simp add: bij_betw_def)
  have "count_list (map (cell_of rows) [0..<rows * cols]) (cell_of rows ?j) =
        count_list [0..<rows * cols] ?j"
    using inj j by (intro count_list_inj_map) simp_all
  moreover have "cell_of rows ?j = (row, col)"
    using assms(1) by (simp add: cell_of_def)
  ultimately show ?thesis using j by (simp add: count_list_upt)
qed

section \<open>The value of a target pixel\<close>

lemma spec_pixel_unfold:
  "spec_pixel toT (mk_worker p interp src lat_south lat_north lng_west lng_east
                     x_origin x_total y_origin y_total) row col =
     (let x_norm = ddiv (index_sum col x_origin) (of_index x_total);
          y_norm = ddiv (index_sum row y_origin) (of_index y_total);
          (lng, lat) = reverse p x_norm y_norm;
          src_x_norm = ddiv (dsub lng lng_west) (dsub lng_east lng_west);
          src_y_norm = dsub (Fin 1) (ddiv (dsub lat lat_south) (dsub lat_north lat_south))
      in if in_unit src_x_norm \<and> in_unit src_y_norm
         then interp src (dmul src_x_norm (of_size (ncol src)))
                (dmul src_y_norm (of_size (nrow src)))
         else toT (Fin (- DBL_MAX)))"
  by (simp add: spec_pixel_def spec_in_source_def spec_src_x_norm_def spec_src_y_norm_def
      spec_x_norm_def spec_y_norm_def mk_worker_def Let_def split: prod.split)

lemma spec_pixel_shift:
  assumes "int col + xo = int col' + xo'"
    and "int col \<le> 2 ^ 53" and "\<bar>xo\<bar> \<le> 2 ^ 53"
    and "int col' \<le> 2 ^ 53" and "\<bar>xo'\<bar> \<le> 2 ^ 53"
  shows "spec_pixel toT (mk_worker p f src la1 la2 ln1 ln2 xo xt yo yt) row col =
         spec_pixel toT (mk_worker p f src la1 la2 ln1 ln2 xo' xt yo yt) row col'"
proof -
  have "index_sum col xo = index_sum col' xo'"
    using assms by (simp add: index_sum_exact)
  then show ?thesis
    by (simp only: spec_pixel_unfold)
qed



section \<open>Every cell is written once\<close>

lemma project_buf:
  assumes "ncol t \<le> stride t"
  shows "buf (tgt (project toT p f src la1 la2 ln1 ln2 t xo xt yo yt)) =
     (\<lambda>a. if a div stride t < nrow t \<and> a mod stride t < ncol t
          then spec_pixel toT (mk_worker p f src la1 la2 ln1 ln2 xo xt yo yt)
                 (a div stride t) (a mod stride t)
          else buf t a)"
proof (rule ext)
  fix a
  let ?P = "project toT p f src la1 la2 ln1 ln2 t xo xt yo yt"
  let ?W = "mk_worker p f src la1 la2 ln1 ln2 xo xt yo yt"
  show "buf (tgt ?P) a =
     (if a div stride t < nrow t \<and> a mod stride t < ncol t
      then spec_pixel toT ?W (a div stride t) (a mod stride t) else buf t a)"
  proof (cases "a div stride t < nrow t \<and> a mod stride t < ncol t")
    case True
    then have "grid_at (tgt ?P) (a div stride t) (a mod stride t) =
               spec_pixel toT ?W (a div stride t) (a mod stride t)"
      using assms by (intro project_at) simp_all
    then show ?thesis
      using True by (simp add: grid_at_def project_dims)
  next
    case False
    have "row * stride t + col \<noteq> a" if "row < nrow t" and "col < ncol t" for row col
    proof
      assume a: "row * stride t + col = a"
      from that assms have "col < stride t" by simp
      then have "a div stride t = row" and "a mod stride t = col"
        using a by auto
      with that False show False by simp
    qed
    then have "buf (tgt ?P) a = buf t a" by (rule project_frame)
    then show ?thesis by (simp only: False if_False)
  qed
qed

text \<open>
  Claim C5. The column-major decomposition \<open>i \<mapsto> (i mod rows, i div rows)\<close> is a
  bijection from the index range \<open>[0, rows * cols)\<close> onto the cells of the target. An
  iteration changes one element of the buffer, the one of the cell of its index, and
  logs that cell. The cells that one call of \<^verbatim>\<open>project\<close> writes are, in order, the
  cells of the indices of the range, so that every cell of the target is written
  exactly once; afterwards the buffer holds the pixel values at the offsets of the
  cells and is unchanged everywhere else. The rows of the target do not overlap (its
  stride is at least its number of columns).
\<close>

theorem project_writes_each_cell_once:
  assumes "ncol t \<le> stride t" and "row < nrow t" and "col < ncol t"
  shows "bij_betw (cell_of (nrow t)) {0..<nrow t * ncol t} ({0..<nrow t} \<times> {0..<ncol t}) \<and>
         worker_body toT W i s =
           s\<lparr>tgt := (tgt s)\<lparr>buf := (buf (tgt s))
                        (fst (cell_of (nrow (tgt s)) i) * stride (tgt s) +
                         snd (cell_of (nrow (tgt s)) i) :=
                           spec_pixel toT W (fst (cell_of (nrow (tgt s)) i))
                             (snd (cell_of (nrow (tgt s)) i)))\<rparr>,
             written := written s @
               [(fst (cell_of (nrow (tgt s)) i), snd (cell_of (nrow (tgt s)) i),
                 spec_branch W (fst (cell_of (nrow (tgt s)) i))
                   (snd (cell_of (nrow (tgt s)) i)))]\<rparr> \<and>
         map (\<lambda>(r, c, b). (r, c))
           (written (project toT p interp src la1 la2 ln1 ln2 t xo xt yo yt)) =
         map (cell_of (nrow t)) [0..<nrow t * ncol t] \<and>
         count_list (map (\<lambda>(r, c, b). (r, c))
           (written (project toT p interp src la1 la2 ln1 ln2 t xo xt yo yt))) (row, col) = 1 \<and>
         buf (tgt (project toT p interp src la1 la2 ln1 ln2 t xo xt yo yt)) =
           (\<lambda>a. if a div stride t < nrow t \<and> a mod stride t < ncol t
                then spec_pixel toT (mk_worker p interp src la1 la2 ln1 ln2 xo xt yo yt)
                       (a div stride t) (a mod stride t)
                else buf t a) \<and>
         grid_at (tgt (project toT p interp src la1 la2 ln1 ln2 t xo xt yo yt)) row col =
           spec_pixel toT (mk_worker p interp src la1 la2 ln1 ln2 xo xt yo yt) row col"
proof -
  have body: "worker_body toT W i s =
           s\<lparr>tgt := (tgt s)\<lparr>buf := (buf (tgt s))
                        (fst (cell_of (nrow (tgt s)) i) * stride (tgt s) +
                         snd (cell_of (nrow (tgt s)) i) :=
                           spec_pixel toT W (fst (cell_of (nrow (tgt s)) i))
                             (snd (cell_of (nrow (tgt s)) i)))\<rparr>,
             written := written s @
               [(fst (cell_of (nrow (tgt s)) i), snd (cell_of (nrow (tgt s)) i),
                 spec_branch W (fst (cell_of (nrow (tgt s)) i))
                   (snd (cell_of (nrow (tgt s)) i)))]\<rparr>"
    by (simp add: worker_body_eq grid_put_def cell_of_def)
  have cnt: "count_list (map (\<lambda>(r, c, b). (r, c))
           (written (project toT p interp src la1 la2 ln1 ln2 t xo xt yo yt))) (row, col) = 1"
    using count_cell_once [OF assms(2,3)] by (simp only: project_written_cells)
  show ?thesis
    using cell_of_bij [of "nrow t" "ncol t"] body project_written_cells cnt
      project_buf [OF assms(1)] project_at [OF assms]
    by (intro conjI)
qed

theorem project_writes_each_cell_once_witness:
  "ncol \<lparr>buf = blank, stride = 3, nrow = 2, ncol = 3\<rparr>
     \<le> stride \<lparr>buf = blank, stride = 3, nrow = 2, ncol = 3\<rparr> \<and>
   (1::nat) < nrow \<lparr>buf = blank, stride = 3, nrow = 2, ncol = 3\<rparr> \<and>
   (2::nat) < ncol \<lparr>buf = blank, stride = 3, nrow = 2, ncol = 3\<rparr> \<and>
   count_list (map (\<lambda>(r, c, b). (r, c))
     (written (project (to_elem Float64) MollweideProjection sample_column
                 \<lparr>buf = blank, stride = 4, nrow = 4, ncol = 4\<rparr>
                 (Fin (- 90)) (Fin 90) (Fin (- 180)) (Fin 180)
                 \<lparr>buf = blank, stride = 3, nrow = 2, ncol = 3\<rparr> 0 3 0 2))) (1, 2) = 1"
proof -
  have s: "ncol \<lparr>buf = blank, stride = 3, nrow = 2, ncol = 3\<rparr>
             \<le> stride \<lparr>buf = blank, stride = 3, nrow = 2, ncol = 3\<rparr>"
    by simp
  have r: "(1::nat) < nrow \<lparr>buf = blank, stride = 3, nrow = 2, ncol = 3\<rparr>"
    by simp
  have c: "(2::nat) < ncol \<lparr>buf = blank, stride = 3, nrow = 2, ncol = 3\<rparr>"
    by simp
  note once = project_writes_each_cell_once [OF s r c, THEN conjunct2, THEN conjunct2,
      THEN conjunct2, THEN conjunct1]
  show ?thesis
    using s r c once by (intro conjI)
qed

section \<open>Tiles\<close>

text \<open>
  Claim C6, as amended. A pixel of the full-width window has the value that the same
  pixel has when the window is cut at column \<open>k\<close> into a left tile, at the same origin,
  and a right tile, at the origin moved by \<open>k\<close>, with the same totals and the other
  inputs shared, provided that the two origins and the number of columns of the window
  are at most \<open>2 ^ 53\<close> in magnitude, so that the conversions to double are exact.
\<close>

theorem project_tile_independence_bounded:
  assumes "k \<le> ncol full"
    and "nrow left = nrow full" and "ncol left = k"
    and "nrow right = nrow full" and "ncol right = ncol full - k"
    and "ncol full \<le> stride full" and "ncol left \<le> stride left"
    and "ncol right \<le> stride right"
    and "row < nrow full" and "col < ncol full"
    and "int (ncol full) \<le> 2 ^ 53" and "\<bar>xo\<bar> \<le> 2 ^ 53" and "\<bar>xo + int k\<bar> \<le> 2 ^ 53"
  shows "grid_at (tgt (project toT p interp src la1 la2 ln1 ln2 full xo xt yo yt)) row col =
         (if col < k
          then grid_at (tgt (project toT p interp src la1 la2 ln1 ln2 left xo xt yo yt)) row col
          else grid_at (tgt (project toT p interp src la1 la2 ln1 ln2 right
                               (xo + int k) xt yo yt)) row (col - k))"
proof -
  have f: "grid_at (tgt (project toT p interp src la1 la2 ln1 ln2 full xo xt yo yt)) row col =
        spec_pixel toT (mk_worker p interp src la1 la2 ln1 ln2 xo xt yo yt) row col"
    using assms(6,9,10) by (rule project_at)
  show ?thesis
  proof (cases "col < k")
    case True
    have "grid_at (tgt (project toT p interp src la1 la2 ln1 ln2 left xo xt yo yt)) row col =
          spec_pixel toT (mk_worker p interp src la1 la2 ln1 ln2 xo xt yo yt) row col"
      using assms(2,3,7,9) True by (intro project_at) simp_all
    with f show ?thesis using True by simp
  next
    case False
    have c: "int col \<le> 2 ^ 53" "int (col - k) \<le> 2 ^ 53"
      using assms(10,11) by simp_all
    have "grid_at (tgt (project toT p interp src la1 la2 ln1 ln2 right (xo + int k) xt yo yt))
            row (col - k) =
          spec_pixel toT (mk_worker p interp src la1 la2 ln1 ln2 (xo + int k) xt yo yt)
            row (col - k)"
      using assms(1,4,5,8,9,10) False by (intro project_at) simp_all
    also have "\<dots> = spec_pixel toT (mk_worker p interp src la1 la2 ln1 ln2 xo xt yo yt) row col"
      using False c assms(12,13) by (intro spec_pixel_shift) simp_all
    finally show ?thesis using f False by simp
  qed
qed

theorem project_tile_independence_bounded_witness:
  "(2::nat) \<le> ncol \<lparr>buf = blank, stride = 4, nrow = 2, ncol = 4\<rparr> \<and>
   (1::nat) < nrow \<lparr>buf = blank, stride = 4, nrow = 2, ncol = 4\<rparr> \<and>
   (3::nat) < ncol \<lparr>buf = blank, stride = 4, nrow = 2, ncol = 4\<rparr> \<and>
   int (ncol \<lparr>buf = blank, stride = 4, nrow = 2, ncol = 4\<rparr>) \<le> 2 ^ 53 \<and>
   \<bar>0 :: int\<bar> \<le> 2 ^ 53 \<and> \<bar>0 + int 2\<bar> \<le> 2 ^ 53 \<and>
   grid_at (tgt (project (to_elem Float64) WebMercatorProjection sample_column
                   \<lparr>buf = blank, stride = 4, nrow = 4, ncol = 4\<rparr>
                   (Fin (- 90)) (Fin 90) (Fin (- 180)) (Fin 180)
                   \<lparr>buf = blank, stride = 4, nrow = 2, ncol = 4\<rparr> 0 4 0 2)) 1 3 =
   grid_at (tgt (project (to_elem Float64) WebMercatorProjection sample_column
                   \<lparr>buf = blank, stride = 4, nrow = 4, ncol = 4\<rparr>
                   (Fin (- 90)) (Fin 90) (Fin (- 180)) (Fin 180)
                   \<lparr>buf = blank, stride = 7, nrow = 2, ncol = 2\<rparr> 2 4 0 2)) 1 1"
  using project_tile_independence_bounded [of 2
      "\<lparr>buf = blank, stride = 4, nrow = 2, ncol = 4\<rparr>"
      "\<lparr>buf = blank, stride = 2, nrow = 2, ncol = 2\<rparr>"
      "\<lparr>buf = blank, stride = 7, nrow = 2, ncol = 2\<rparr>"
      1 3 0 "to_elem Float64" WebMercatorProjection sample_column
      "\<lparr>buf = blank, stride = 4, nrow = 4, ncol = 4\<rparr>"
      "Fin (- 90)" "Fin 90" "Fin (- 180)" "Fin 180" 4 0 2]
  by simp

text \<open>
  Beyond that bound claim C6 fails. A window of four columns at the origin
  \<open>2 ^ 54 + 2\<close> of a world \<open>2 ^ 55\<close> pixels wide, cut at column 2: the origin converts to
  \<open>2 ^ 54\<close> and the sum with the column 2 rounds to \<open>2 ^ 54\<close> again, while the right
  tile's origin \<open>2 ^ 54 + 4\<close> is a double; the pixel of column 2 is sampled at the
  source column 2 in the window and beyond it in the tile.
\<close>

lemma spacing_examples:
  "spacing (2 ^ 54) = 4" "spacing (2 ^ 54 + 2) = 4" "spacing (2 ^ 54 + 4) = 4"
  "spacing (2 ^ 55) = 8"
  by (simp_all add: spacing_step spacing_below)

lemma nearest_double_examples:
  "nearest_double (2 ^ 54) = 2 ^ 54" "nearest_double (2 ^ 54 + 2) = 2 ^ 54"
  "nearest_double (2 ^ 54 + 4) = 2 ^ 54 + 4" "nearest_double (2 ^ 55) = 2 ^ 55"
  using spacing_examples by (simp_all add: nearest_double_def)

lemma index_sum_examples:
  "index_sum 2 (2 ^ 54 + 2) = Fin (2 ^ 54)" "index_sum 0 (2 ^ 54 + 4) = Fin (2 ^ 54 + 4)"
  "of_index (2 ^ 55) = Fin (2 ^ 55)"
  using nearest_double_examples
  by (simp_all add: index_sum_def of_index_def nearest_double_exact)

lemma window_pixel_example:
  "spec_pixel (to_elem Float64)
     (mk_worker WebMercatorProjection sample_column
        \<lparr>buf = blank, stride = 4, nrow = 4, ncol = 4\<rparr>
        (Fin (- 90)) (Fin 90) (Fin (- 180)) (Fin 180) (2 ^ 54 + 2) (2 ^ 55) 1 2) 0 2 = Fin 2"
  by (simp add: spec_pixel_unfold index_sum_examples [simplified] index_sum_small
      of_size_exact of_index_exact WebMercator_reverse_def PI_def dsub_def in_unit_def
      sample_column_def)

lemma tile_pixel_example:
  "spec_pixel (to_elem Float64)
     (mk_worker WebMercatorProjection sample_column
        \<lparr>buf = blank, stride = 4, nrow = 4, ncol = 4\<rparr>
        (Fin (- 90)) (Fin 90) (Fin (- 180)) (Fin 180) (2 ^ 54 + 4) (2 ^ 55) 1 2) 0 0 =
   Fin (2 + 1 / 2 ^ 51)"
  by (simp add: spec_pixel_unfold index_sum_examples [simplified] index_sum_small
      of_size_exact of_index_exact WebMercator_reverse_def PI_def dsub_def in_unit_def
      sample_column_def)

theorem project_tile_independence_counterexample:
  "grid_at (tgt (project (to_elem Float64) WebMercatorProjection sample_column
                   \<lparr>buf = blank, stride = 4, nrow = 4, ncol = 4\<rparr>
                   (Fin (- 90)) (Fin 90) (Fin (- 180)) (Fin 180)
                   \<lparr>buf = blank, stride = 4, nrow = 1, ncol = 4\<rparr>
                   (2 ^ 54 + 2) (2 ^ 55) 1 2)) 0 2 \<noteq>
   grid_at (tgt (project (to_elem Float64) WebMercatorProjection sample_column
                   \<lparr>buf = blank, stride = 4, nrow = 4, ncol = 4\<rparr>
                   (Fin (- 90)) (Fin 90) (Fin (- 180)) (Fin 180)
                   \<lparr>buf = blank, stride = 2, nrow = 1, ncol = 2\<rparr>
                   (2 ^ 54 + 2 + int 2) (2 ^ 55) 1 2)) 0 (2 - 2)"
proof -
  have w: "grid_at (tgt (project (to_elem Float64) WebMercatorProjection sample_column
                   \<lparr>buf = blank, stride = 4, nrow = 4, ncol = 4\<rparr>
                   (Fin (- 90)) (Fin 90) (Fin (- 180)) (Fin 180)
                   \<lparr>buf = blank, stride = 4, nrow = 1, ncol = 4\<rparr>
                   (2 ^ 54 + 2) (2 ^ 55) 1 2)) 0 2 = Fin 2"
    unfolding window_pixel_example [symmetric] by (rule project_at) simp_all
  have t: "grid_at (tgt (project (to_elem Float64) WebMercatorProjection sample_column
                   \<lparr>buf = blank, stride = 4, nrow = 4, ncol = 4\<rparr>
                   (Fin (- 90)) (Fin 90) (Fin (- 180)) (Fin 180)
                   \<lparr>buf = blank, stride = 2, nrow = 1, ncol = 2\<rparr>
                   (2 ^ 54 + 4) (2 ^ 55) 1 2)) 0 0 = Fin (2 + 1 / 2 ^ 51)"
    unfolding tile_pixel_example [symmetric] by (rule project_at) simp_all
  have e: "(2 ^ 54 + 2 + int 2 :: int) = 2 ^ 54 + 4" "(2 - 2 :: nat) = 0"
    by simp_all
  show ?thesis
    unfolding e w t by simp
qed

section \<open>The projection identifier\<close>

text \<open>
  Claim C7. \<^verbatim>\<open>getProjection\<close> returns the Web Mercator instance for
  \<open>epsg:3857\<close>, the Mollweide instance for \<open>mollweide\<close> and no instance for any other
  name; the operation that resolves the identifier before the pass fails exactly when
  the identifier is neither of the two, and then no pass has been run.
\<close>

theorem getProjection_cases:
  "getProjection ''epsg:3857'' = Some WebMercatorProjection \<and>
   getProjection ''mollweide'' = Some MollweideProjection \<and>
   (getProjection name = None \<longleftrightarrow> name \<noteq> ''epsg:3857'' \<and> name \<noteq> ''mollweide'') \<and>
   (reproject toT interp src la1 la2 ln1 ln2 t xo xt yo yt name = Failure \<longleftrightarrow>
      name \<noteq> ''epsg:3857'' \<and> name \<noteq> ''mollweide'')"
  by (simp add: getProjection_def reproject_def)

theorem getProjection_cases_witness:
  "''utm'' \<noteq> ''epsg:3857'' \<and> ''utm'' \<noteq> ''mollweide'' \<and>
   getProjection ''utm'' = None \<and>
   reproject (\<lambda>v. v) (\<lambda>g x y. Fin 7)
     \<lparr>buf = \<lambda>a. Fin 1, stride = 4, nrow = 4, ncol = 4\<rparr>
     (Fin (- 90)) (Fin 90) (Fin (- 180)) (Fin 180)
     \<lparr>buf = \<lambda>a. Fin 0, stride = 2, nrow = 2, ncol = 2\<rparr> 0 2 0 2 ''utm'' = Failure"
  using getProjection_cases [of "''utm''" "\<lambda>v. v" "\<lambda>g x y. Fin 7"
      "\<lparr>buf = \<lambda>a. Fin 1, stride = 4, nrow = 4, ncol = 4\<rparr>"
      "Fin (- 90)" "Fin 90" "Fin (- 180)" "Fin 180"
      "\<lparr>buf = \<lambda>a. Fin 0, stride = 2, nrow = 2, ncol = 2\<rparr>" 0 2 0 2]
  by simp

section \<open>The unused parameters of the exported operation\<close>

text \<open>
  Claim C8. \<^verbatim>\<open>project_webmercator\<close> does not depend on its parameters
  \<open>dataFormat\<close> and \<open>method\<close>: for any two pairs of values of them and the other
  inputs the same, the result is the same, and it is the result of the engine
  instantiated at the element type double with the bilinear interpolator.
\<close>

theorem project_webmercator_ignores_format_and_method:
  "project_webmercator engine mk_grid files from fromStride fromRows fromCols ln1 ln2 la1 la2
     to toStride toRows toCols x y totalWidth totalHeight dataFormat method =
   project_webmercator engine mk_grid files from fromStride fromRows fromCols ln1 ln2 la1 la2
     to toStride toRows toCols x y totalWidth totalHeight dataFormat' method' \<and>
   project_webmercator engine mk_grid files from fromStride fromRows fromCols ln1 ln2 la1 la2
     to toStride toRows toCols x y totalWidth totalHeight dataFormat method =
   files(to := buf (engine Float64 Bilinear
     (mk_grid (files from) fromStride fromRows fromCols)
     (of_index la1) (of_index la2) (of_index ln1) (of_index ln2)
     (mk_grid (files to) toStride toRows toCols)
     x totalWidth y totalHeight))"
  by (simp add: project_webmercator_def project_webmercator_files_def)

section \<open>The Web Mercator projection\<close>

lemma WebMercator_reverse_Fin:
  "WebMercator_reverse (Fin x) (Fin y) =
     (Fin (x * 360 - 180), Fin (arctan (sinh (pi * (1 - 2 * y))) * 180 / pi))"
  by (simp add: WebMercator_reverse_def dsub_def PI_def)

lemma arctan_degrees_bounds:
  "- 90 < arctan z * 180 / pi \<and> arctan z * 180 / pi < 90"
proof -
  have "- (pi / 2) < arctan z" and "arctan z < pi / 2"
    by (rule arctan_lbound arctan_ubound)+
  then show ?thesis
    using pi_gt_zero by (simp add: field_simps)
qed

text \<open>
  Claim C3. For \<open>x\<close> and \<open>y\<close> in \<open>[0, 1)\<close>, the Web Mercator reverse projection
  returns \<open>lng = x * 360 - 180\<close> and \<open>lat = atan (sinh (\<pi> * (1 - 2 * y))) * 180 / \<pi>\<close>;
  the latitude lies strictly between \<open>-90\<close> and \<open>90\<close>; the centre \<open>(0.5, 0.5)\<close> maps
  to \<open>(0, 0)\<close>, and \<open>(0, 0.5)\<close> to the longitude \<open>-180\<close>.
\<close>

theorem WebMercator_reverse_formula:
  assumes "0 \<le> x" and "x < 1" and "0 \<le> y" and "y < 1"
  shows "reverse WebMercatorProjection (Fin x) (Fin y) =
           (Fin (x * 360 - 180), Fin (arctan (sinh (pi * (1 - 2 * y))) * 180 / pi)) \<and>
         (\<exists>lat. snd (reverse WebMercatorProjection (Fin x) (Fin y)) = Fin lat \<and>
                - 90 < lat \<and> lat < 90) \<and>
         reverse WebMercatorProjection (Fin (1 / 2)) (Fin (1 / 2)) = (Fin 0, Fin 0) \<and>
         fst (reverse WebMercatorProjection (Fin 0) (Fin (1 / 2))) = Fin (- 180)"
  using arctan_degrees_bounds [of "sinh (pi * (1 - 2 * y))"]
  by (simp add: WebMercator_reverse_Fin)

theorem WebMercator_reverse_formula_witness:
  "(0::real) \<le> 1 / 4 \<and> (1 / 4 :: real) < 1 \<and> (0::real) \<le> 0 \<and> (0::real) < 1 \<and>
   reverse WebMercatorProjection (Fin (1 / 4)) (Fin 0) =
     (Fin (- 90), Fin (arctan (sinh pi) * 180 / pi))"
  using WebMercator_reverse_formula [of "1 / 4" 0]
  by simp

section \<open>The Mollweide projection\<close>

lemma arcsin_neg_iff:
  assumes "- 1 \<le> z" and "z \<le> 1"
  shows "arcsin z < 0 \<longleftrightarrow> z < 0"
proof -
  have "\<bar>z\<bar> \<le> 1" using assms by (simp add: abs_le_iff)
  moreover have "\<bar>0::real\<bar> \<le> 1" by simp
  ultimately have "arcsin z < arcsin 0 \<longleftrightarrow> z < 0" by (rule arcsin_less_mono)
  then show ?thesis by simp
qed

lemma mollweide_aux_bounds:
  assumes "- (pi / 2) \<le> \<theta>" and "\<theta> \<le> pi / 2"
  shows "- pi \<le> 2 * \<theta> + sin (2 * \<theta>) \<and> 2 * \<theta> + sin (2 * \<theta>) \<le> pi \<and>
         (2 * \<theta> + sin (2 * \<theta>) < 0 \<longleftrightarrow> \<theta> < 0)"
proof (cases "0 \<le> \<theta>")
  case True
  define u where "u = 2 * \<theta>"
  have u: "0 \<le> u" "u \<le> pi" using True assms by (simp_all add: u_def)
  have "0 \<le> sin u" using u by (rule sin_ge_zero)
  moreover have "sin (pi - u) \<le> pi - u" using u by (intro sin_x_le_x) simp
  then have "sin u \<le> pi - u" by simp
  ultimately show ?thesis using u True pi_gt_zero by (simp add: u_def)
next
  case False
  define v where "v = - (2 * \<theta>)"
  have v: "0 < v" "v \<le> pi" using False assms by (simp_all add: v_def)
  have "0 \<le> sin v" using v by (intro sin_ge_zero) simp_all
  moreover have "sin (pi - v) \<le> pi - v" using v by (intro sin_x_le_x) simp
  then have "sin v \<le> pi - v" by simp
  moreover have "sin (2 * \<theta>) = - sin v" by (simp add: v_def)
  moreover have "2 * \<theta> = - v" by (simp add: v_def)
  ultimately show ?thesis using v False by simp
qed

lemma Mollweide_reverse_Fin:
  "Mollweide_reverse (Fin x) (Fin y) =
     (let x' = x * (4 * sqrt 2) - 2 * sqrt 2;
          y' = y * (4 * sqrt 2) - 2 * sqrt 2;
          theta = dasin (Fin (y' / sqrt 2));
          phi = dasin (ddiv (dadd (dmul (Fin 2) theta) (dsin (dmul (Fin 2) theta))) PI);
          lambda = dadd (Fin 0) (ddiv (Fin (pi * x')) (dmul (Fin (2 * sqrt 2)) (dcos theta)))
      in (ddiv (dmul lambda (Fin 180)) PI, ddiv (dmul phi (Fin (- 180))) PI))"
  by (simp add: Mollweide_reverse_def dsub_def PI_def Let_def)

lemma mollweide_plane_range:
  assumes "0 \<le> (x::real)" and "x < 1"
  shows "- (2 * sqrt 2) \<le> x * (4 * sqrt 2) - 2 * sqrt 2 \<and>
         x * (4 * sqrt 2) - 2 * sqrt 2 \<le> 2 * sqrt 2"
proof -
  have "0 < sqrt (2::real)" by simp
  then have "0 \<le> x * (4 * sqrt 2)" and "x * (4 * sqrt 2) < 1 * (4 * sqrt 2)"
    using assms by simp_all
  then show ?thesis by simp
qed

lemma mollweide_y_scaled:
  "(y * (4 * sqrt 2) - 2 * sqrt 2) / sqrt 2 = 4 * y - (2::real)"
  by (simp add: field_simps)

lemma Mollweide_reverse_inside:
  assumes "1 / 4 < y" and "y < 3 / 4"
  shows "(let x' = x * (4 * sqrt 2) - 2 * sqrt 2;
              y' = y * (4 * sqrt 2) - 2 * sqrt 2;
              \<theta> = arcsin (y' / sqrt 2);
              \<phi> = arcsin ((2 * \<theta> + sin (2 * \<theta>)) / pi);
              lam = 0 + pi * x' / (2 * sqrt 2 * cos \<theta>)
          in 2 * \<theta> + sin (2 * \<theta>) = pi * sin \<phi> \<and>
             - (pi / 2) \<le> \<phi> \<and> \<phi> \<le> pi / 2 \<and>
             Mollweide_reverse (Fin x) (Fin y) = (Fin (lam * 180 / pi), Fin (\<phi> * (- 180 / pi))) \<and>
             (0 < \<phi> * (- 180 / pi) \<longleftrightarrow> y < 1 / 2))"
proof -
  define y' where "y' = y * (4 * sqrt 2) - 2 * sqrt 2"
  define \<theta> where "\<theta> = arcsin (y' / sqrt 2)"
  define w where "w = (2 * \<theta> + sin (2 * \<theta>)) / pi"
  define \<phi> where "\<phi> = arcsin w"
  have ys: "y' / sqrt 2 = 4 * y - 2" by (simp add: y'_def mollweide_y_scaled)
  have ys': "- 1 < y' / sqrt 2" "y' / sqrt 2 < 1" using assms by (simp_all add: ys)
  then have yr: "- 1 \<le> y' / sqrt 2" "y' / sqrt 2 \<le> 1" by simp_all
  have th: "- (pi / 2) \<le> \<theta>" "\<theta> \<le> pi / 2"
    using arcsin_bounded [OF yr] by (simp_all add: \<theta>_def)
  have ct: "cos \<theta> \<noteq> 0"
    unfolding \<theta>_def using ys' by (rule cos_arcsin_nonzero)
  note b = mollweide_aux_bounds [OF th]
  have wr: "- 1 \<le> w" "w \<le> 1"
    using b pi_gt_zero by (simp_all add: w_def field_simps)
  have eq: "2 * \<theta> + sin (2 * \<theta>) = pi * sin \<phi>"
    using wr pi_gt_zero by (simp add: \<phi>_def w_def)
  have ph: "- (pi / 2) \<le> \<phi>" "\<phi> \<le> pi / 2"
    using arcsin_bounded [OF wr] by (simp_all add: \<phi>_def)
  have "\<theta> < 0 \<longleftrightarrow> y' / sqrt 2 < 0"
    unfolding \<theta>_def using yr by (rule arcsin_neg_iff)
  moreover have "y' / sqrt 2 < 0 \<longleftrightarrow> y < 1 / 2" unfolding ys by auto
  ultimately have ths: "\<theta> < 0 \<longleftrightarrow> y < 1 / 2" by (rule trans)
  have "w < 0 \<longleftrightarrow> \<theta> < 0"
    using b pi_gt_zero by (simp add: w_def field_simps)
  moreover have "\<phi> < 0 \<longleftrightarrow> w < 0"
    unfolding \<phi>_def using wr by (rule arcsin_neg_iff)
  ultimately have "\<phi> < 0 \<longleftrightarrow> y < 1 / 2" using ths by simp
  then have sign: "0 < \<phi> * (- 180 / pi) \<longleftrightarrow> y < 1 / 2"
    using pi_gt_zero by (simp add: zero_less_mult_iff field_simps)
  have lat: "snd (Mollweide_reverse (Fin x) (Fin y)) = Fin (\<phi> * (- 180 / pi))"
    using yr wr
    by (simp add: Mollweide_reverse_Fin Let_def PI_def y'_def [symmetric] \<theta>_def [symmetric]
        w_def [symmetric] \<phi>_def [symmetric])
  have lng: "fst (Mollweide_reverse (Fin x) (Fin y)) =
      Fin ((0 + pi * (x * (4 * sqrt 2) - 2 * sqrt 2) / (2 * sqrt 2 * cos \<theta>)) * 180 / pi)"
    using yr ct
    by (simp add: Mollweide_reverse_Fin Let_def PI_def y'_def [symmetric] \<theta>_def [symmetric])
  have both: "Mollweide_reverse (Fin x) (Fin y) =
      (Fin ((0 + pi * (x * (4 * sqrt 2) - 2 * sqrt 2) / (2 * sqrt 2 * cos \<theta>)) * 180 / pi),
       Fin (\<phi> * (- 180 / pi)))"
    using lat lng by (simp add: prod_eq_iff)
  show ?thesis
    using eq ph both sign
    unfolding Let_def \<phi>_def w_def \<theta>_def y'_def
    by blast
qed

text \<open>
  Claim C4, as amended. For \<open>x\<close> in \<open>[0, 1)\<close> and \<open>y\<close> strictly between \<open>1/4\<close> and
  \<open>3/4\<close>, the Mollweide reverse projection rescales them to plane coordinates \<open>x'\<close>
  and \<open>y'\<close> in \<open>[-2\<surd>2, 2\<surd>2]\<close>, and with \<open>\<theta> = asin (y' / \<surd>2)\<close>, the \<open>\<phi>\<close> that
  satisfies \<open>2\<theta> + sin 2\<theta> = \<pi> sin \<phi>\<close> and \<open>\<lambda> = 0 + \<pi> x' / (2 \<surd>2 cos \<theta>)\<close> it returns
  \<open>lng = \<lambda> * 180 / \<pi>\<close> and \<open>lat = \<phi> * (-180 / \<pi>)\<close>; the latitude is positive
  exactly in the upper half \<open>y < 1/2\<close>, its sign opposite to that of \<open>y'\<close>.
\<close>

theorem Mollweide_reverse_inside_band:
  assumes "0 \<le> x" and "x < 1" and "1 / 4 < y" and "y < 3 / 4"
  shows "(let x' = x * (4 * sqrt 2) - 2 * sqrt 2;
              y' = y * (4 * sqrt 2) - 2 * sqrt 2;
              \<theta> = arcsin (y' / sqrt 2);
              \<phi> = arcsin ((2 * \<theta> + sin (2 * \<theta>)) / pi);
              lam = 0 + pi * x' / (2 * sqrt 2 * cos \<theta>)
          in - (2 * sqrt 2) \<le> x' \<and> x' \<le> 2 * sqrt 2 \<and>
             - (2 * sqrt 2) \<le> y' \<and> y' \<le> 2 * sqrt 2 \<and>
             2 * \<theta> + sin (2 * \<theta>) = pi * sin \<phi> \<and>
             - (pi / 2) \<le> \<phi> \<and> \<phi> \<le> pi / 2 \<and>
             reverse MollweideProjection (Fin x) (Fin y) =
               (Fin (lam * 180 / pi), Fin (\<phi> * (- 180 / pi))) \<and>
             (0 < \<phi> * (- 180 / pi) \<longleftrightarrow> y < 1 / 2))"
proof -
  have y: "0 \<le> y" "y < 1" using assms(3,4) by simp_all
  note rx = mollweide_plane_range [OF assms(1,2)]
  note ry = mollweide_plane_range [OF y]
  note d = Mollweide_reverse_inside [OF assms(3,4), of x, unfolded Let_def]
  show ?thesis
    using rx ry d unfolding Let_def reverse.simps by blast
qed

theorem Mollweide_reverse_inside_band_witness:
  "(0::real) \<le> 3 / 4 \<and> (3 / 4 :: real) < 1 \<and> (1 / 4 :: real) < 1 / 2 \<and> (1 / 2 :: real) < 3 / 4 \<and>
   reverse MollweideProjection (Fin (3 / 4)) (Fin (1 / 2)) = (Fin 90, Fin 0)"
proof -
  have h: "(0::real) \<le> 3 / 4" "(3 / 4 :: real) < 1" "(1 / 4 :: real) < 1 / 2"
    "(1 / 2 :: real) < 3 / 4"
    by simp_all
  note t = Mollweide_reverse_inside_band [OF h, unfolded Let_def]
  show ?thesis
    using t by simp
qed

text \<open>
  Claim C4 as it stands, for every \<open>y\<close> in \<open>[0, 1)\<close>, fails: at the top edge \<open>y = 0\<close>
  the argument of the arc sine is \<open>-2\<close>, and the result is NaN for both coordinates.
\<close>

theorem Mollweide_reverse_top_edge_counterexample:
  "reverse MollweideProjection (Fin (1 / 2)) (Fin 0) = (NaN, NaN)"
  by (simp add: Mollweide_reverse_Fin Let_def PI_def)

section \<open>Pixels outside the source\<close>

lemma ddiv_degenerate: "dspecial (ddiv a (dsub b b))"
  by (cases a; cases b) (simp_all add: dsub_def)

lemma dsub_one_special: "dspecial v \<Longrightarrow> dspecial (dsub (Fin 1) v)"
  by (cases v) (simp_all add: dsub_def)

lemma in_unit_special: "dspecial v \<Longrightarrow> \<not> in_unit v"
  by (cases v) (simp_all add: in_unit_def)

lemma worker_body_outside:
  assumes "\<not> spec_in_source W (i mod nrow (tgt s)) (i div nrow (tgt s))"
  shows "worker_body toT W i s =
     s\<lparr>tgt := grid_put (tgt s) (i mod nrow (tgt s)) (i div nrow (tgt s)) (toT (Fin (- DBL_MAX))),
       written := written s @ [(i mod nrow (tgt s), i div nrow (tgt s), NoData)]\<rparr>"
  using assms by (simp add: worker_body_eq spec_pixel_def spec_branch_def)

lemma worker_call_cong:
  assumes "\<And>i s. worker_body toT W i s = worker_body toT W' i s"
  shows "worker_call toT W i e s = worker_call toT W' i e s"
proof (induction "e - i" arbitrary: i s)
  case 0
  then show ?case
    by (simp add: worker_call.simps [of toT W i e s] worker_call.simps [of toT W' i e s])
next
  case (Suc n)
  then have "i < e" and "n = e - Suc i" by simp_all
  then show ?case
    using Suc(1) [of "Suc i" "worker_body toT W' i s"] assms
    by (simp add: worker_call.simps [of toT W i e s] worker_call.simps [of toT W' i e s])
qed

lemma spec_in_source_shared:
  "spec_in_source (mk_worker p f src la1 la2 ln1 ln2 xo xt yo yt) row col =
   spec_in_source (mk_worker p f' src' la1 la2 ln1 ln2 xo xt yo yt) row col"
  by (simp add: spec_in_source_def spec_src_x_norm_def spec_src_y_norm_def
      spec_x_norm_def spec_y_norm_def mk_worker_def)

lemma project_outside_everywhere:
  assumes "\<And>row col. \<not> spec_in_source (mk_worker p f src la1 la2 ln1 ln2 xo xt yo yt) row col"
  shows "written (project toT p f src la1 la2 ln1 ln2 t xo xt yo yt) =
           map (\<lambda>j. (j mod nrow t, j div nrow t, NoData)) [0..<nrow t * ncol t]"
    and "project toT p f src la1 la2 ln1 ln2 t xo xt yo yt =
         project toT p f' src' la1 la2 ln1 ln2 t xo xt yo yt"
proof -
  show "written (project toT p f src la1 la2 ln1 ln2 t xo xt yo yt) =
           map (\<lambda>j. (j mod nrow t, j div nrow t, NoData)) [0..<nrow t * ncol t]"
    using assms by (simp add: project_written spec_branch_def)
  have "worker_body toT (mk_worker p f src la1 la2 ln1 ln2 xo xt yo yt) i s =
        worker_body toT (mk_worker p f' src' la1 la2 ln1 ln2 xo xt yo yt) i s" for i s
    using assms spec_in_source_shared [of p f src la1 la2 ln1 ln2 xo xt yo yt _ _ f' src']
    by (simp add: worker_body_outside)
  then show "project toT p f src la1 la2 ln1 ln2 t xo xt yo yt =
         project toT p f' src' la1 la2 ln1 ln2 t xo xt yo yt"
    unfolding project_worker_call by (rule worker_call_cong)
qed

lemma degenerate_x_special:
  "dspecial (spec_src_x_norm (mk_worker p f src la1 la2 lg lg xo xt yo yt) row col)"
  by (simp add: spec_src_x_norm_def mk_worker_def Let_def ddiv_degenerate)

lemma degenerate_y_special:
  "dspecial (spec_src_y_norm (mk_worker p f src lt lt ln1 ln2 xo xt yo yt) row col)"
  by (simp add: spec_src_y_norm_def mk_worker_def Let_def ddiv_degenerate dsub_one_special)

lemma project_written_entry:
  assumes "row < nrow t" and "col < ncol t"
  shows "(row, col, b) \<in> set (written (project toT p f src la1 la2 ln1 ln2 t xo xt yo yt)) \<longleftrightarrow>
         b = spec_branch (mk_worker p f src la1 la2 ln1 ln2 xo xt yo yt) row col"
proof
  assume "(row, col, b) \<in> set (written (project toT p f src la1 la2 ln1 ln2 t xo xt yo yt))"
  then show "b = spec_branch (mk_worker p f src la1 la2 ln1 ln2 xo xt yo yt) row col"
    by (auto simp: project_written)
next
  assume b: "b = spec_branch (mk_worker p f src la1 la2 ln1 ln2 xo xt yo yt) row col"
  let ?j = "col * nrow t + row"
  have "?j < nrow t * ncol t" using assms by (rule index_in_range)
  moreover have "?j mod nrow t = row" "?j div nrow t = col"
    using index_of_cell [OF assms(1), of col] by simp_all
  ultimately show "(row, col, b) \<in> set (written (project toT p f src la1 la2 ln1 ln2 t xo xt yo yt))"
    unfolding project_written b set_map
    by (intro image_eqI [where x = ?j]) simp_all
qed

text \<open>
  Claim C9. When the bounding box is degenerate (\<open>lng_east = lng_west\<close> or
  \<open>lat_north = lat_south\<close>), the normalized source coordinate of the degenerate axis is
  NaN or an infinity at every pixel, the test for the source's bounds is false, every
  write of the worker is that of the else branch, and the result of \<^verbatim>\<open>project\<close> is the
  same for any other interpolator and source grid: the source is not read.
\<close>

theorem degenerate_box_never_samples:
  assumes "lng_east = lng_west \<or> lat_north = lat_south"
  shows "(lng_east = lng_west \<and>
            dspecial (spec_src_x_norm (mk_worker p interp src lat_south lat_north lng_west lng_east
                                         xo xt yo yt) row col) \<or>
          lat_north = lat_south \<and>
            dspecial (spec_src_y_norm (mk_worker p interp src lat_south lat_north lng_west lng_east
                                         xo xt yo yt) row col)) \<and>
         \<not> spec_in_source (mk_worker p interp src lat_south lat_north lng_west lng_east
                              xo xt yo yt) row col \<and>
         worker_body toT (mk_worker p interp src lat_south lat_north lng_west lng_east
                            xo xt yo yt) i s =
           s\<lparr>tgt := grid_put (tgt s) (i mod nrow (tgt s)) (i div nrow (tgt s))
                       (toT (Fin (- DBL_MAX))),
             written := written s @ [(i mod nrow (tgt s), i div nrow (tgt s), NoData)]\<rparr> \<and>
         written (project toT p interp src lat_south lat_north lng_west lng_east t xo xt yo yt) =
           map (\<lambda>j. (j mod nrow t, j div nrow t, NoData)) [0..<nrow t * ncol t] \<and>
         project toT p interp src lat_south lat_north lng_west lng_east t xo xt yo yt =
           project toT p interp' src' lat_south lat_north lng_west lng_east t xo xt yo yt"
proof -
  let ?W = "mk_worker p interp src lat_south lat_north lng_west lng_east xo xt yo yt"
  have sp: "lng_east = lng_west \<and> dspecial (spec_src_x_norm ?W r c) \<or>
            lat_north = lat_south \<and> dspecial (spec_src_y_norm ?W r c)" for r c
  proof (cases "lng_east = lng_west")
    case True
    then show ?thesis by (simp add: degenerate_x_special)
  next
    case False
    with assms have "lat_north = lat_south" by simp
    then show ?thesis by (simp add: degenerate_y_special)
  qed
  have out: "\<not> spec_in_source ?W r c" for r c
    using sp [of r c] by (auto simp: spec_in_source_def dest: in_unit_special)
  note b = worker_body_outside [of ?W i s toT, OF out]
  note w = project_outside_everywhere(1) [of p interp src lat_south lat_north lng_west lng_east
      xo xt yo yt toT t, OF out]
  note q = project_outside_everywhere(2) [of p interp src lat_south lat_north lng_west lng_east
      xo xt yo yt toT t interp' src', OF out]
  show ?thesis
    using sp [of row col] out [of row col] b w q by (intro conjI)
qed

theorem degenerate_box_never_samples_witness:
  "(Fin 5 = Fin 5 \<or> Fin 90 = Fin (- 90)) \<and>
   written (project (\<lambda>v. v) WebMercatorProjection (\<lambda>g x y. Fin 7)
              \<lparr>buf = \<lambda>a. Fin 1, stride = 4, nrow = 4, ncol = 4\<rparr>
              (Fin (- 90)) (Fin 90) (Fin 5) (Fin 5)
              \<lparr>buf = \<lambda>a. Fin 0, stride = 1, nrow = 1, ncol = 1\<rparr> 0 1 0 1) =
     [(0, 0, NoData)]"
  using degenerate_box_never_samples [of "Fin 5" "Fin 5" "Fin 90" "Fin (- 90)"
      WebMercatorProjection "\<lambda>g x y. Fin 7"
      "\<lparr>buf = \<lambda>a. Fin 1, stride = 4, nrow = 4, ncol = 4\<rparr>" 0 1 0 1 0 0 "\<lambda>v. v" 0
      "\<lparr>tgt = \<lparr>buf = \<lambda>a. Fin 0, stride = 1, nrow = 1, ncol = 1\<rparr>, written = []\<rparr>"
      "\<lparr>buf = \<lambda>a. Fin 0, stride = 1, nrow = 1, ncol = 1\<rparr>"]
  by simp

lemma NaN_absorbs:
  "dadd a NaN = NaN" "dmul a NaN = NaN" "ddiv a NaN = NaN" "dsub NaN a = NaN" "dsub a NaN = NaN"
  by (cases a; simp add: dsub_def)+

lemma Mollweide_theta_NaN:
  assumes "dlt y (Fin (1 / 4)) \<or> dlt (Fin (3 / 4)) y"
  shows "dasin (ddiv (dsub (dmul y (dmul (Fin 4) (dmul (Fin 1) (dsqrt (Fin 2)))))
                        (dmul (Fin 2) (dmul (Fin 1) (dsqrt (Fin 2)))))
                  (dmul (Fin 1) (dsqrt (Fin 2)))) = NaN"
proof (cases y)
  case (Fin v)
  have "(v * (4 * sqrt 2) - 2 * sqrt 2) / sqrt 2 = 4 * v - 2"
    by (rule mollweide_y_scaled)
  moreover have "v < 1 / 4 \<or> 3 / 4 < v" using assms Fin by simp
  ultimately show ?thesis using Fin by (auto simp: dsub_def)
qed (use assms in \<open>simp_all add: dsub_def\<close>)

lemma Mollweide_reverse_outside:
  assumes "dlt y (Fin (1 / 4)) \<or> dlt (Fin (3 / 4)) y"
  shows "Mollweide_reverse x y = (NaN, NaN)"
  unfolding Mollweide_reverse_def Let_def Mollweide_theta_NaN [OF assms]
  by (simp add: NaN_absorbs)

text \<open>
  Claim C10. With the Mollweide projection, a target pixel whose normalized global
  \<open>y\<close> is below \<open>1/4\<close> or above \<open>3/4\<close> has NaN for its reverse projection and for both
  normalized source coordinates; the test for the source's bounds fails, the cell gets
  the value of the else branch, and the only write to it is that of the else branch.
\<close>

theorem Mollweide_outside_band:
  assumes "ncol t \<le> stride t" and "row < nrow t" and "col < ncol t"
    and "dlt (ddiv (index_sum row yo) (of_index yt)) (Fin (1 / 4)) \<or>
         dlt (Fin (3 / 4)) (ddiv (index_sum row yo) (of_index yt))"
  shows "reverse MollweideProjection
           (ddiv (index_sum col xo) (of_index xt))
           (ddiv (index_sum row yo) (of_index yt)) = (NaN, NaN) \<and>
         spec_src_x_norm (mk_worker MollweideProjection interp src la1 la2 ln1 ln2 xo xt yo yt)
           row col = NaN \<and>
         spec_src_y_norm (mk_worker MollweideProjection interp src la1 la2 ln1 ln2 xo xt yo yt)
           row col = NaN \<and>
         \<not> spec_in_source (mk_worker MollweideProjection interp src la1 la2 ln1 ln2 xo xt yo yt)
             row col \<and>
         grid_at (tgt (project toT MollweideProjection interp src la1 la2 ln1 ln2 t xo xt yo yt))
           row col = toT (Fin (- DBL_MAX)) \<and>
         (row, col, NoData) \<in>
           set (written (project toT MollweideProjection interp src la1 la2 ln1 ln2 t xo xt yo yt)) \<and>
         (row, col, Interpolated) \<notin>
           set (written (project toT MollweideProjection interp src la1 la2 ln1 ln2 t xo xt yo yt))"
proof -
  let ?W = "mk_worker MollweideProjection interp src la1 la2 ln1 ln2 xo xt yo yt"
  let ?x = "ddiv (index_sum col xo) (of_index xt)"
  let ?y = "ddiv (index_sum row yo) (of_index yt)"
  have r: "reverse MollweideProjection ?x ?y = (NaN, NaN)"
    using Mollweide_reverse_outside [OF assms(4)] by simp
  have sx: "spec_src_x_norm ?W row col = NaN"
    using r by (simp add: spec_src_x_norm_def spec_x_norm_def spec_y_norm_def mk_worker_def NaN_absorbs)
  have sy: "spec_src_y_norm ?W row col = NaN"
    using r by (simp add: spec_src_y_norm_def spec_x_norm_def spec_y_norm_def mk_worker_def NaN_absorbs
        dsub_def [of "Fin 1"])
  have out: "\<not> spec_in_source ?W row col"
    by (simp add: spec_in_source_def sx in_unit_def)
  have v: "grid_at (tgt (project toT MollweideProjection interp src la1 la2 ln1 ln2 t xo xt yo yt))
             row col = toT (Fin (- DBL_MAX))"
    using project_at [OF assms(1-3)] out by (simp add: spec_pixel_def)
  have br: "spec_branch ?W row col = NoData" using out by (simp add: spec_branch_def)
  have l1: "(row, col, NoData) \<in>
      set (written (project toT MollweideProjection interp src la1 la2 ln1 ln2 t xo xt yo yt))"
    using project_written_entry [OF assms(2,3)] br by metis
  have l2: "(row, col, Interpolated) \<notin>
      set (written (project toT MollweideProjection interp src la1 la2 ln1 ln2 t xo xt yo yt))"
    using project_written_entry [OF assms(2,3)] br by (metis branch.distinct(1))
  show ?thesis using r sx sy out v l1 l2 by (intro conjI)
qed

theorem Mollweide_outside_band_witness:
  "ncol \<lparr>buf = \<lambda>a. Fin 0, stride = 1, nrow = 8, ncol = 1\<rparr>
     \<le> stride \<lparr>buf = \<lambda>a. Fin 0, stride = 1, nrow = 8, ncol = 1\<rparr> \<and>
   (1::nat) < nrow \<lparr>buf = \<lambda>a. Fin 0, stride = 1, nrow = 8, ncol = 1\<rparr> \<and>
   (0::nat) < ncol \<lparr>buf = \<lambda>a. Fin 0, stride = 1, nrow = 8, ncol = 1\<rparr> \<and>
   dlt (ddiv (index_sum 1 0) (of_index 8)) (Fin (1 / 4)) \<and>
   grid_at (tgt (project (\<lambda>v. v) MollweideProjection (\<lambda>g x y. Fin 7)
                   \<lparr>buf = \<lambda>a. Fin 1, stride = 4, nrow = 4, ncol = 4\<rparr>
                   (Fin (- 90)) (Fin 90) (Fin (- 180)) (Fin 180)
                   \<lparr>buf = \<lambda>a. Fin 0, stride = 1, nrow = 8, ncol = 1\<rparr> 0 1 0 8)) 1 0 =
     Fin (- DBL_MAX)"
  using Mollweide_outside_band [of "\<lparr>buf = \<lambda>a. Fin 0, stride = 1, nrow = 8, ncol = 1\<rparr>" 1 0 0 8
      0 1 "\<lambda>g x y. Fin 7" "\<lparr>buf = \<lambda>a. Fin 1, stride = 4, nrow = 4, ncol = 4\<rparr>"
      "Fin (- 90)" "Fin 90" "Fin (- 180)" "Fin 180" "\<lambda>v. v"]
  by (simp add: index_sum_small of_index_exact)

section \<open>The value written outside the source, by element type\<close>

lemma DBL_MAX_beyond_float: "(2 - 1 / 2 ^ 24) * 2 ^ 127 \<le> DBL_MAX"
  by (simp add: DBL_MAX_def)

lemma double_to_float_lowest: "double_to_float (Fin (- DBL_MAX)) = NInf"
proof -
  have "0 < (2 - 1 / 2 ^ 24) * (2::real) ^ 127" by simp
  then have "\<not> (2 - 1 / 2 ^ 24) * 2 ^ 127 \<le> - DBL_MAX"
    using DBL_MAX_beyond_float by linarith
  then show ?thesis using DBL_MAX_beyond_float by simp
qed

lemma outside_pixel_value:
  "grid_at (tgt (project toT WebMercatorProjection interp src
                   (Fin (- 10)) (Fin 10) (Fin (- 10)) (Fin 10)
                   \<lparr>buf = b, stride = 1, nrow = 1, ncol = 1\<rparr> 23 36 1 2)) 0 0 =
   toT (Fin (- DBL_MAX))"
proof -
  have "grid_at (tgt (project toT WebMercatorProjection interp src
                   (Fin (- 10)) (Fin 10) (Fin (- 10)) (Fin 10)
                   \<lparr>buf = b, stride = 1, nrow = 1, ncol = 1\<rparr> 23 36 1 2)) 0 0 =
        spec_pixel toT (mk_worker WebMercatorProjection interp src
                   (Fin (- 10)) (Fin 10) (Fin (- 10)) (Fin 10) 23 36 1 2) 0 0"
    by (rule project_at) simp_all
  also have "\<dots> = toT (Fin (- DBL_MAX))"
    by (simp add: spec_pixel_unfold WebMercator_reverse_Fin index_sum_small of_index_exact
        dsub_def in_unit_def)
  finally show ?thesis .
qed

text \<open>
  Claim C2. The claim is that a pixel outside the source's bounding box gets the most
  negative value of the element type \<open>T\<close>, whatever \<open>T\<close> is. The worker assigns the
  most negative double: for the box \<open>(-10, 10, -10, 10)\<close> and the pixel at
  \<open>(lng, lat) = (50, 0)\<close>, a target of floats receives negative infinity, which is not
  the most negative float, while a target of doubles receives the most negative double.
\<close>

theorem sentinel_is_lowest_double_only:
  "grid_at (tgt (project (to_elem Float32) WebMercatorProjection interp src
                   (Fin (- 10)) (Fin 10) (Fin (- 10)) (Fin 10)
                   \<lparr>buf = b, stride = 1, nrow = 1, ncol = 1\<rparr> 23 36 1 2)) 0 0 = NInf \<and>
   NInf \<noteq> Fin (lowest Float32) \<and>
   grid_at (tgt (project (to_elem Float64) WebMercatorProjection interp src
                   (Fin (- 10)) (Fin 10) (Fin (- 10)) (Fin 10)
                   \<lparr>buf = b, stride = 1, nrow = 1, ncol = 1\<rparr> 23 36 1 2)) 0 0 =
     Fin (lowest Float64)"
proof -
  have f: "to_elem Float32 (Fin (- DBL_MAX)) = NInf"
    by (simp add: double_to_float_lowest del: double_to_float.simps)
  have d: "to_elem Float64 (Fin (- DBL_MAX)) = Fin (lowest Float64)"
    by simp
  have n: "NInf \<noteq> Fin (lowest Float32)"
    by simp
  show ?thesis
    unfolding outside_pixel_value f d using n by simp
qed

end
